theory Spec2Isabelle
  imports Main "HOL-Library.Word" "HOL-Library.AList"
begin

section \<open>Strings\<close>

text \<open>
  A Go \<^verbatim>\<open>string\<close> is a sequence of bytes; it is modelled as \<^typ>\<open>string\<close>
  (a list of 8-bit characters). The functions of package \<^verbatim>\<open>strings\<close> that the
  scanner calls are written out here.
\<close>

definition HasPrefix :: "string \<Rightarrow> string \<Rightarrow> bool" where
  "HasPrefix s p = (take (length p) s = p)"

definition TrimPrefix :: "string \<Rightarrow> string \<Rightarrow> string" where
  "TrimPrefix s p = (if HasPrefix s p then drop (length p) s else s)"

fun Contains :: "string \<Rightarrow> string \<Rightarrow> bool" where
  "Contains [] sub = (sub = [])"
| "Contains (c # cs) sub = (HasPrefix (c # cs) sub \<or> Contains cs sub)"

text \<open>
  \<^verbatim>\<open>strings.SplitN(s, ":", 2)\<close>: at most two parts, cut at the first colon;
  a string without a colon is returned whole, as the only part.
\<close>

definition SplitN2 :: "string \<Rightarrow> string list" where
  "SplitN2 s =
     (if CHR '':'' \<in> set s
      then [takeWhile (\<lambda>c. c \<noteq> CHR '':'') s, tl (dropWhile (\<lambda>c. c \<noteq> CHR '':'') s)]
      else [s])"

text \<open>The single quote, which a string literal of the theory cannot hold.\<close>

definition apos :: string where
  "apos = [CHR 0x27]"

section \<open>Errors\<close>

text \<open>
  \<^verbatim>\<open>fmt.Errorf\<close> without \<^verbatim>\<open>%w\<close> yields an \<^verbatim>\<open>*errors.errorString\<close> holding the
  message; with one \<^verbatim>\<open>%w\<close> it yields a \<^verbatim>\<open>*fmt.wrapError\<close> holding the whole
  formatted message and the wrapped error. \<open>libError\<close> stands for an error value made
  by a library (net/url, net/http, encoding/json), of which only the message is used.
  A \<^verbatim>\<open>nil\<close> error is \<open>None\<close>.
\<close>

datatype error = errorString string | wrapError string error | libError string

text \<open>The method \<^verbatim>\<open>err.Error()\<close>, which \<^verbatim>\<open>%v\<close> and \<^verbatim>\<open>%w\<close> print.\<close>

fun ErrorText :: "error \<Rightarrow> string" where
  "ErrorText (errorString s) = s"
| "ErrorText (wrapError msg err) = msg"
| "ErrorText (libError s) = s"

text \<open>\<^verbatim>\<open>fmt.Errorf(prefix + "%w", err)\<close>.\<close>

definition Errorf_w :: "string \<Rightarrow> error \<Rightarrow> error" where
  "Errorf_w prefix err = wrapError (prefix @ ErrorText err) err"

section \<open>The image reference parser\<close>

text \<open>
  \<^verbatim>\<open>parseImageURL\<close> (cmd/quay-scanner/main.go) has the named results
  \<^verbatim>\<open>(repo, tag, err)\<close> and leaves through bare \<^verbatim>\<open>return\<close>s, so each exit returns
  whatever the three variables hold at that point.
\<close>

definition parseImageURL :: "string \<Rightarrow> string \<times> string \<times> error option" where
  "parseImageURL imageURL =
     (if \<not> HasPrefix imageURL ''quay.io/''
      then ('''', '''',
            Some (errorString (''image URL must start with '' @ apos @ ''quay.io/'' @ apos)))
      else
        let trimmedURL = TrimPrefix imageURL ''quay.io/'';
            parts = SplitN2 trimmedURL
        in if length parts \<noteq> 2 \<or> parts ! 0 = '''' \<or> parts ! 1 = ''''
           then ('''', '''',
                 Some (errorString
                   (''invalid image URL format. Expected '' @ apos
                      @ ''quay.io/repository/name:tag'' @ apos @ '', got '' @ apos
                      @ imageURL @ apos)))
           else
             let repo = parts ! 0; tag = parts ! 1
             in if Contains repo ''..'' \<or> Contains tag ''..'' \<or> Contains tag ''/''
                then (repo, tag, Some (errorString ''invalid characters in repository or tag''))
                else (repo, tag, None))"

section \<open>The registry's data\<close>

text \<open>
  The structs of internal/quay that the scanner decodes the registry's answers into.
  \<^verbatim>\<open>int64\<close> is a 64-bit word, \<^verbatim>\<open>*int64\<close> an optional one, Go's \<^verbatim>\<open>int\<close> an
  integer. \<open>json_value\<close> is a decoded JSON value (\<^verbatim>\<open>interface{}\<close>), which the scanner
  never inspects. A feature lists vulnerabilities and a vulnerability the features that
  fix it, so the two are one mutually recursive datatype, their arguments in the order
  of the struct's fields.
\<close>

record TagDetail =
  Name :: string
  ManifestDigest :: string
  ImageID :: string
  LastModified :: string
  Size :: "64 word"
  IsManifestList :: bool
  StartTs :: "64 word"
  Expiration :: "64 word option"
  Reversion :: bool

typedecl json_value

datatype Feature =
  Feature string string string string string "Vulnerability list"
    \<comment> \<open>Name, Version, VersionFormat, NamespaceName, AddedBy, Vulnerabilities\<close>
and Vulnerability =
  Vulnerability string string string string string "string \<rightharpoonup> json_value" string "Feature list"
    \<comment> \<open>Name, NamespaceName, Description, Link, Severity, Metadata, FixedBy, FixedIn\<close>

record Layer =
  Name :: string
  NamespaceName :: string
  IndexedByVersion :: int
  Features :: "Feature list"

record SecurityData =
  Layer :: Layer

record SecurityReport =
  Status :: string
  Data :: SecurityData

text \<open>
  \<^verbatim>\<open>ImageScanResult\<close>: \<open>Report\<close> is a pointer, \<open>None\<close> when \<^verbatim>\<open>nil\<close>; \<open>Error\<close> is a
  string, empty when there is no error.
\<close>

record ImageScanResult =
  ImageURL :: string
  Report :: "SecurityReport option"
  Error :: string

text \<open>The zero values of \<^verbatim>\<open>var tagDetail TagDetail\<close> and \<^verbatim>\<open>var report SecurityReport\<close>.\<close>

definition TagDetail_zero :: TagDetail where
  "TagDetail_zero =
     \<lparr>TagDetail.Name = '''', ManifestDigest = '''', ImageID = '''', LastModified = '''',
      Size = 0, IsManifestList = False, StartTs = 0, Expiration = None, Reversion = False\<rparr>"

definition SecurityReport_zero :: SecurityReport where
  "SecurityReport_zero =
     \<lparr>Status = '''',
      Data = \<lparr>Layer = \<lparr>Layer.Name = '''', NamespaceName = '''', IndexedByVersion = 0,
                       Features = []\<rparr>\<rparr>\<rparr>"

section \<open>The network and the libraries\<close>

text \<open>
  What the client sends and receives. A request holds what \<^verbatim>\<open>doRequest\<close> sets; of a
  response the client reads the status code, the status line and the body.
  \<open>resp_Chunk\<close> is the number of bytes the body has ready for the first
  \<^verbatim>\<open>Read\<close>, which may be fewer than the body holds.
\<close>

record http_request =
  Method :: string
  URL :: string
  Header :: "(string \<times> string) list"

record http_response =
  resp_StatusCode :: int
  resp_Status :: string
  resp_Body :: string
  resp_Chunk :: nat

text \<open>
  The behaviour of everything outside the repository is a parameter of the model:
  \<^item> \<open>url_Parse\<close>, \<open>ResolveReference\<close>, \<open>PathEscape\<close>: package net/url (a URL is kept as
    its text);
  \<^item> \<open>NewRequest_err\<close>: the error of \<^verbatim>\<open>http.NewRequest\<close>, if any;
  \<^item> \<open>Do\<close>: \<^verbatim>\<open>c.HTTPClient.Do\<close>, that is the network and the registry: a transport
    error (a timeout among them) or a response;
  \<^item> \<open>Quote\<close>: the verb \<^verbatim>\<open>%q\<close>;
  \<^item> \<open>Decode_TagDetail\<close>, \<open>Decode_SecurityReport\<close>: \<^verbatim>\<open>json.NewDecoder(body).Decode(target)\<close>
    for the two target types: from the body and the target's value before, the
    target's value after and the error, if any.
\<close>

record world =
  url_Parse :: "string \<Rightarrow> error + string"
  ResolveReference :: "string \<Rightarrow> string \<Rightarrow> string"
  PathEscape :: "string \<Rightarrow> string"
  NewRequest_err :: "string \<Rightarrow> string \<Rightarrow> error option"
  Do :: "http_request \<Rightarrow> error + http_response"
  Quote :: "string \<Rightarrow> string"
  Decode_TagDetail :: "string \<Rightarrow> TagDetail \<Rightarrow> TagDetail \<times> error option"
  Decode_SecurityReport :: "string \<Rightarrow> SecurityReport \<Rightarrow> SecurityReport \<times> error option"

text \<open>
  What a call does beyond returning: the requests it hands to the HTTP client and the
  lines it logs, in order.
\<close>

datatype event = HTTP http_request | Log string

section \<open>The API client\<close>

text \<open>
  \<^verbatim>\<open>Client\<close> (internal/quay/client.go): the base URL and the token. Its
  \<^verbatim>\<open>HTTPClient\<close> is the \<open>Do\<close> of the world.
\<close>

record Client =
  BaseURL :: string
  Token :: string

definition userAgent :: string where
  "userAgent = ''golang-quay-vuln-scanner/1.0''"

definition NewRequest :: "world \<Rightarrow> string \<Rightarrow> string \<Rightarrow> error + http_request" where
  "NewRequest w method url =
     (case NewRequest_err w method url of
        Some err \<Rightarrow> Inl err
      | None \<Rightarrow> Inr \<lparr>Method = method, URL = url, Header = []\<rparr>)"

definition Header_Set :: "string \<Rightarrow> string \<Rightarrow> http_request \<Rightarrow> http_request" where
  "Header_Set k v req = req\<lparr>Header := AList.update k v (Header req)\<rparr>"

text \<open>
  The error \<^verbatim>\<open>doRequest\<close> makes of a response whose status code is not 200
  (\<^verbatim>\<open>http.StatusOK\<close>): the status line and the bytes that one \<^verbatim>\<open>Read\<close> into a
  buffer of 512 bytes delivers. No other error is made of a status code.
\<close>

definition statusError :: "string \<Rightarrow> http_response \<Rightarrow> error" where
  "statusError fullURL resp =
     (let errorBody = take (min 512 (resp_Chunk resp)) (resp_Body resp)
      in errorString (''API request to '' @ fullURL @ '' failed with status ''
                        @ resp_Status resp @ ''. Body snippet: '' @ errorBody))"

text \<open>
  \<^verbatim>\<open>doRequest(method, path, target)\<close>. The target is a pointer: \<open>None\<close> is \<^verbatim>\<open>nil\<close>,
  \<open>Some t\<close> points at a variable holding \<open>t\<close>. The result is the value the target holds
  afterwards, the error and the events. \<open>decode\<close> is the decoder of the target's type.
\<close>

definition doRequest ::
  "world \<Rightarrow> Client \<Rightarrow> string \<Rightarrow> string \<Rightarrow> (string \<Rightarrow> 'a \<Rightarrow> 'a \<times> error option) \<Rightarrow> 'a option
     \<Rightarrow> 'a option \<times> error option \<times> event list" where
  "doRequest w c method path decode target =
     (case url_Parse w path of
        Inl err \<Rightarrow>
          (target, Some (Errorf_w (''invalid API path '' @ Quote w path @ '': '') err), [])
      | Inr relURL \<Rightarrow>
          let fullURL = ResolveReference w (BaseURL c) relURL
          in (case NewRequest w method fullURL of
                Inl err \<Rightarrow>
                  (target,
                   Some (Errorf_w (''failed to create request for '' @ fullURL @ '': '') err), [])
              | Inr req0 \<Rightarrow>
                  let req1 = Header_Set ''User-Agent'' userAgent req0;
                      req = (if Token c \<noteq> ''''
                             then Header_Set ''Authorization'' (''Bearer '' @ Token c) req1
                             else req1)
                  in (case Do w req of
                        Inl err \<Rightarrow>
                          (target,
                           Some (Errorf_w (''failed to execute request for '' @ fullURL @ '': '') err),
                           [HTTP req])
                      | Inr resp \<Rightarrow>
                          if resp_StatusCode resp \<noteq> 200
                          then (target, Some (statusError fullURL resp), [HTTP req])
                          else
                            (case target of
                               None \<Rightarrow> (None, None, [HTTP req])
                             | Some t \<Rightarrow>
                                 (case decode (resp_Body resp) t of
                                    (t', Some err) \<Rightarrow>
                                      (Some t',
                                       Some (Errorf_w
                                         (''failed to decode JSON response from '' @ fullURL @ '': '')
                                         err),
                                       [HTTP req])
                                  | (t', None) \<Rightarrow> (Some t', None, [HTTP req]))))))"

text \<open>
  \<^verbatim>\<open>GetImageID(repo, tag)\<close>: the digest and the error, and the events. \<open>tagDetail\<close> is
  the local variable the request decodes into.
\<close>

definition GetImageID ::
  "world \<Rightarrow> Client \<Rightarrow> string \<Rightarrow> string \<Rightarrow> string \<times> error option \<times> event list" where
  "GetImageID w c repo tag =
     (let path = ''repository/'' @ repo @ ''/tag/'' @ PathEscape w tag
      in case doRequest w c ''GET'' path (Decode_TagDetail w) (Some TagDetail_zero) of
           (target, Some err, evs) \<Rightarrow>
             ('''',
              Some (Errorf_w (''failed to get tag details for '' @ repo @ '':'' @ tag @ '': '') err),
              evs)
         | (target, None, evs) \<Rightarrow>
             let tagDetail = (case target of Some t \<Rightarrow> t | None \<Rightarrow> TagDetail_zero)
             in if ManifestDigest tagDetail \<noteq> ''''
                then (TrimPrefix (ManifestDigest tagDetail) ''sha256:'', None, evs)
                else if ImageID tagDetail \<noteq> ''''
                then (TrimPrefix (ImageID tagDetail) ''sha256:'', None, evs)
                else ('''',
                      Some (errorString
                        (''could not determine image digest for tag '' @ apos @ tag @ apos)),
                      evs))"

text \<open>
  \<^verbatim>\<open>GetVulnerabilities(repo, imageDigest)\<close>: the report (a pointer), the error and the
  events.
\<close>

definition GetVulnerabilities ::
  "world \<Rightarrow> Client \<Rightarrow> string \<Rightarrow> string \<Rightarrow> SecurityReport option \<times> error option \<times> event list" where
  "GetVulnerabilities w c repo imageDigest =
     (let path = ''repository/'' @ repo @ ''/image/'' @ imageDigest
                   @ ''/security?vulnerabilities=true''
      in case doRequest w c ''GET'' path (Decode_SecurityReport w) (Some SecurityReport_zero) of
           (target, Some err, evs) \<Rightarrow>
             (None,
              Some (Errorf_w (''failed to get security info for image '' @ imageDigest @ '': '') err),
              evs)
         | (target, None, evs) \<Rightarrow>
             let report = (case target of Some r \<Rightarrow> r | None \<Rightarrow> SecurityReport_zero)
             in (Some report, None,
                 evs @ (if Status report \<noteq> ''scanned''
                        then [Log (''WARN: Scan status for '' @ repo @ ''/'' @ imageDigest
                                     @ '' is '' @ apos @ Status report @ apos
                                     @ ''. Vulnerability data may be incomplete or unavailable.'')]
                        else [])))"

section \<open>The per-image task\<close>

text \<open>\<^verbatim>\<open>processImage(imageURL, quayClient)\<close>: the result and the events.\<close>

definition processImage :: "world \<Rightarrow> Client \<Rightarrow> string \<Rightarrow> ImageScanResult \<times> event list" where
  "processImage w quayClient imageURL =
     (let result = \<lparr>ImageURL = imageURL, Report = None, Error = ''''\<rparr>
      in case parseImageURL imageURL of
           (repo, tag, Some err) \<Rightarrow>
             (result\<lparr>Error := ''Parsing URL failed: '' @ ErrorText err\<rparr>, [])
         | (repo, tag, None) \<Rightarrow>
             (case GetImageID w quayClient repo tag of
                (imageID, Some err, evs) \<Rightarrow>
                  (result\<lparr>Error := ''Getting image ID failed: '' @ ErrorText err\<rparr>, evs)
              | (imageID, None, evs) \<Rightarrow>
                  if imageID = ''''
                  then (result\<lparr>Error := ''Could not find image ID for tag '' @ apos @ tag @ apos
                                           @ '' (tag might not exist)''\<rparr>,
                        evs)
                  else
                    (case GetVulnerabilities w quayClient repo imageID of
                       (report, Some err, evs') \<Rightarrow>
                         let result' = result\<lparr>Error := ''Getting vulnerabilities failed: ''
                                                        @ ErrorText err\<rparr>
                         in ((if report \<noteq> None then result'\<lparr>Report := report\<rparr> else result'),
                             evs @ evs')
                     | (report, None, evs') \<Rightarrow> (result\<lparr>Report := report\<rparr>, evs @ evs'))))"

section \<open>The worker pool\<close>

text \<open>
  \<^verbatim>\<open>runWorkerPool(imageURLs, quayClient, numWorkers)\<close> runs three kinds of thread:
  the caller's own (\<open>Main\<close>), the workers it starts and the collector it starts. They
  meet at two buffered channels, \<^verbatim>\<open>jobs\<close> and \<^verbatim>\<open>results\<close>, both of capacity
  \<^verbatim>\<open>numJobs = len(imageURLs)\<close>, and at two wait groups. The model is a state of
  all threads and channels and a step function per thread; the scheduler is the list
  of threads that take the steps, in order, and a thread that is blocked has no step.

  A batch is the three arguments and the world. The registry may answer the same
  request differently at different times, so the world is given per task: \<open>remote b i\<close>
  is the world as the task of the \<open>i\<close>-th submitted reference (counted from 0) finds
  it. The number \<open>i\<close> travels with the job for this purpose only; the program's channel
  carries the string alone.
\<close>

record batch =
  imageURLs :: "string list"
  quayClient :: Client
  numWorkers :: int
  remote :: "nat \<Rightarrow> world"

text \<open>
  The caller's thread, by the statement it is at: the loop that starts the workers,
  the loop that sends the jobs, \<^verbatim>\<open>close(jobs)\<close>, the start of the collector,
  \<^verbatim>\<open>wg.Wait()\<close>, \<^verbatim>\<open>collectWg.Wait()\<close>, and the return.
\<close>

datatype main_pc =
  StartWorkers | SendJobs | CloseJobs | StartCollector | WaitWorkers | WaitCollector | Returned

text \<open>
  A worker (\<^verbatim>\<open>worker\<close>): at the head of its loop over \<^verbatim>\<open>jobs\<close>; holding a job;
  holding the result it is about to send; or past its loop, its \<^verbatim>\<open>wg.Done()\<close> run.
\<close>

datatype worker = Receiving | Processing nat string | Delivering ImageScanResult | Exited

text \<open>The collector: not started; in its loop with counter \<open>i\<close>; or past it.\<close>

datatype collector = NotStarted | Collecting nat | Finished

record pool =
  main :: main_pc
  workers :: "worker list"
  jobs :: "(nat \<times> string) list"
  sent :: nat
  closed :: bool
  results :: "ImageScanResult list"
  collector :: collector
  allResults :: "string \<rightharpoonup> ImageScanResult"

definition start :: pool where
  "start = \<lparr>main = StartWorkers, workers = [], jobs = [], sent = 0, closed = False,
            results = [], collector = NotStarted, allResults = Map.empty\<rparr>"

text \<open>
  A step of the caller's thread. The worker loop runs while fewer than
  \<^verbatim>\<open>numWorkers\<close> workers are started; a send blocks while the channel is full;
  \<^verbatim>\<open>wg.Wait()\<close> blocks until every worker started has run \<^verbatim>\<open>wg.Done()\<close>, and
  \<^verbatim>\<open>collectWg.Wait()\<close> until the collector has.
\<close>

definition main_step :: "batch \<Rightarrow> pool \<Rightarrow> pool option" where
  "main_step b s =
     (case main s of
        StartWorkers \<Rightarrow>
          if int (length (workers s)) < numWorkers b
          then Some (s\<lparr>workers := workers s @ [Receiving]\<rparr>)
          else Some (s\<lparr>main := SendJobs\<rparr>)
      | SendJobs \<Rightarrow>
          if sent s < length (imageURLs b)
          then if length (jobs s) < length (imageURLs b)
               then Some (s\<lparr>jobs := jobs s @ [(sent s, imageURLs b ! sent s)],
                            sent := Suc (sent s)\<rparr>)
               else None
          else Some (s\<lparr>main := CloseJobs\<rparr>)
      | CloseJobs \<Rightarrow> Some (s\<lparr>closed := True, main := StartCollector\<rparr>)
      | StartCollector \<Rightarrow> Some (s\<lparr>collector := Collecting 0, main := WaitWorkers\<rparr>)
      | WaitWorkers \<Rightarrow>
          if list_all (\<lambda>w. w = Exited) (workers s)
          then Some (s\<lparr>main := WaitCollector\<rparr>)
          else None
      | WaitCollector \<Rightarrow>
          if collector s = Finished then Some (s\<lparr>main := Returned\<rparr>) else None
      | Returned \<Rightarrow> None)"

text \<open>
  A step of worker \<open>k\<close>: it receives a job, or leaves its loop when the channel is
  empty and closed, or blocks; it runs \<^verbatim>\<open>processImage\<close> on the job it holds; it sends
  the result, or blocks while \<^verbatim>\<open>results\<close> is full.
\<close>

definition worker_step :: "batch \<Rightarrow> nat \<Rightarrow> pool \<Rightarrow> pool option" where
  "worker_step b k s =
     (if k < length (workers s)
      then
        (case workers s ! k of
           Receiving \<Rightarrow>
             (case jobs s of
                (i, imageURL) # rest \<Rightarrow>
                  Some (s\<lparr>jobs := rest, workers := (workers s)[k := Processing i imageURL]\<rparr>)
              | [] \<Rightarrow>
                  if closed s then Some (s\<lparr>workers := (workers s)[k := Exited]\<rparr>) else None)
         | Processing i imageURL \<Rightarrow>
             Some (s\<lparr>workers := (workers s)
                      [k := Delivering (fst (processImage (remote b i) (quayClient b) imageURL))]\<rparr>)
         | Delivering result \<Rightarrow>
             if length (results s) < length (imageURLs b)
             then Some (s\<lparr>results := results s @ [result],
                          workers := (workers s)[k := Receiving]\<rparr>)
             else None
         | Exited \<Rightarrow> None)
      else None)"

text \<open>
  A step of the collector: while its counter is below \<^verbatim>\<open>numJobs\<close> it receives a
  result and stores it under the result's \<^verbatim>\<open>ImageURL\<close>, or blocks; then it is done.
\<close>

definition collector_step :: "batch \<Rightarrow> pool \<Rightarrow> pool option" where
  "collector_step b s =
     (case collector s of
        NotStarted \<Rightarrow> None
      | Collecting i \<Rightarrow>
          if i < length (imageURLs b)
          then (case results s of
                  result # rest \<Rightarrow>
                    Some (s\<lparr>results := rest,
                            allResults := (allResults s)(ImageURL result \<mapsto> result),
                            collector := Collecting (Suc i)\<rparr>)
                | [] \<Rightarrow> None)
          else Some (s\<lparr>collector := Finished\<rparr>)
      | Finished \<Rightarrow> None)"

datatype thread = Main | Worker nat | Collector

definition step :: "batch \<Rightarrow> thread \<Rightarrow> pool \<Rightarrow> pool option" where
  "step b t s =
     (case t of
        Main \<Rightarrow> main_step b s
      | Worker k \<Rightarrow> worker_step b k s
      | Collector \<Rightarrow> collector_step b s)"

text \<open>A schedule runs from a state as long as each thread it names has a step.\<close>

fun run :: "batch \<Rightarrow> thread list \<Rightarrow> pool \<Rightarrow> pool option" where
  "run b [] s = Some s"
| "run b (t # ts) s = (case step b t s of None \<Rightarrow> None | Some s' \<Rightarrow> run b ts s')"

text \<open>
  What \<^verbatim>\<open>runWorkerPool\<close> returns under a schedule that takes the caller to its
  \<^verbatim>\<open>return\<close>; \<open>None\<close> for a schedule that does not.
\<close>

definition runWorkerPool :: "batch \<Rightarrow> thread list \<Rightarrow> (string \<rightharpoonup> ImageScanResult) option" where
  "runWorkerPool b schedule =
     (case run b schedule start of
        None \<Rightarrow> None
      | Some s \<Rightarrow> if main s = Returned then Some (allResults s) else None)"

text \<open>The result of the task of the \<open>i\<close>-th submitted reference.\<close>

definition task :: "batch \<Rightarrow> nat \<Rightarrow> ImageScanResult" where
  "task b i = fst (processImage (remote b i) (quayClient b) (imageURLs b ! i))"

text \<open>
  The request \<^verbatim>\<open>doRequest\<close> hands to the HTTP client: the method and the URL, the
  user agent and, with a token, the authorization.
\<close>

definition request_sent :: "Client \<Rightarrow> string \<Rightarrow> string \<Rightarrow> http_request" where
  "request_sent c method fullURL =
     (let req1 = Header_Set ''User-Agent'' userAgent \<lparr>Method = method, URL = fullURL, Header = []\<rparr>
      in if Token c \<noteq> ''''
         then Header_Set ''Authorization'' (''Bearer '' @ Token c) req1
         else req1)"

section \<open>Sample registries\<close>

text \<open>
  Concrete clients, answers and worlds, on which the properties below are evaluated.
  The sample world resolves a reference by appending it to the base URL, escapes
  nothing, and answers a request by looking its URL up in a table; a URL the table
  does not hold is refused. Its decoders read bodies of the form \<^verbatim>\<open>field=value\<close>.
\<close>

definition sample_client :: Client where
  "sample_client = \<lparr>BaseURL = ''https://quay.io/api/v1/'', Token = ''''\<rparr>"

definition sample_decode_tag :: "string \<Rightarrow> TagDetail \<Rightarrow> TagDetail \<times> error option" where
  "sample_decode_tag body t =
     (if HasPrefix body ''manifest_digest=''
      then (t\<lparr>ManifestDigest := TrimPrefix body ''manifest_digest=''\<rparr>, None)
      else if HasPrefix body ''docker_image_id=''
      then (t\<lparr>ImageID := TrimPrefix body ''docker_image_id=''\<rparr>, None)
      else if body = ''{}'' then (t, None)
      else (t, Some (libError ''invalid character'')))"

definition sample_decode_report ::
  "string \<Rightarrow> SecurityReport \<Rightarrow> SecurityReport \<times> error option" where
  "sample_decode_report body r =
     (if HasPrefix body ''status=''
      then (r\<lparr>Status := TrimPrefix body ''status=''\<rparr>, None)
      else (r, Some (libError ''invalid character'')))"

definition sample_world :: "(string \<times> (error + http_response)) list \<Rightarrow> world" where
  "sample_world answers =
     \<lparr>url_Parse = Inr,
      ResolveReference = (\<lambda>base rel. base @ rel),
      PathEscape = (\<lambda>s. s),
      NewRequest_err = (\<lambda>method url. None),
      Do = (\<lambda>req. case map_of answers (URL req) of
                     Some r \<Rightarrow> r
                   | None \<Rightarrow> Inl (libError ''connection refused'')),
      Quote = (\<lambda>s. s),
      Decode_TagDetail = sample_decode_tag,
      Decode_SecurityReport = sample_decode_report\<rparr>"

definition response :: "int \<Rightarrow> string \<Rightarrow> string \<Rightarrow> error + http_response" where
  "response code status body =
     Inr \<lparr>resp_StatusCode = code, resp_Status = status, resp_Body = body,
          resp_Chunk = length body\<rparr>"

definition tag_url :: string where
  "tag_url = ''https://quay.io/api/v1/repository/coreos/etcd/tag/v3.5.0''"

definition sec_url :: string where
  "sec_url = ''https://quay.io/api/v1/repository/coreos/etcd/image/abc123/security?vulnerabilities=true''"

definition not_found :: http_response where
  "not_found = \<lparr>resp_StatusCode = 404, resp_Status = ''404 Not Found'', resp_Body = '''',
                 resp_Chunk = 0\<rparr>"

definition server_error :: http_response where
  "server_error = \<lparr>resp_StatusCode = 500, resp_Status = ''500 Internal Server Error'',
                    resp_Body = '''', resp_Chunk = 0\<rparr>"

definition tag_found :: "string \<times> (error + http_response)" where
  "tag_found = (tag_url, response 200 ''200 OK'' ''manifest_digest=sha256:abc123'')"

definition report_scanned :: "string \<times> (error + http_response)" where
  "report_scanned = (sec_url, response 200 ''200 OK'' ''status=scanned'')"

definition etcd :: string where
  "etcd = ''quay.io/coreos/etcd:v3.5.0''"

definition tag_request :: http_request where
  "tag_request = \<lparr>Method = ''GET'', URL = tag_url, Header = [(''User-Agent'', userAgent)]\<rparr>"

definition sec_request :: http_request where
  "sec_request = \<lparr>Method = ''GET'', URL = sec_url, Header = [(''User-Agent'', userAgent)]\<rparr>"

section \<open>Invariants of the worker pool\<close>

text \<open>
  What holds in every state a schedule reaches from \<open>start\<close>. \<open>ctrl\<close> ties the flags
  and counters to the statement the caller is at; \<open>count\<close> accounts for every job sent:
  it is in the channel, with a worker, in the results channel, or collected.
\<close>

fun busy :: "worker \<Rightarrow> nat" where
  "busy (Processing i imageURL) = 1"
| "busy (Delivering result) = 1"
| "busy Receiving = 0"
| "busy Exited = 0"

fun collected :: "nat \<Rightarrow> collector \<Rightarrow> nat" where
  "collected n NotStarted = 0"
| "collected n (Collecting i) = i"
| "collected n Finished = n"

definition ctrl :: "batch \<Rightarrow> pool \<Rightarrow> bool" where
  "ctrl b s =
     (sent s \<le> length (imageURLs b)
      \<and> int (length (workers s)) \<le> max 0 (numWorkers b)
      \<and> (case main s of
            StartWorkers \<Rightarrow> sent s = 0 \<and> \<not> closed s \<and> collector s = NotStarted
          | SendJobs \<Rightarrow> \<not> closed s \<and> collector s = NotStarted
                          \<and> numWorkers b \<le> int (length (workers s))
          | CloseJobs \<Rightarrow> sent s = length (imageURLs b) \<and> \<not> closed s
                          \<and> collector s = NotStarted \<and> numWorkers b \<le> int (length (workers s))
          | StartCollector \<Rightarrow> sent s = length (imageURLs b) \<and> closed s
                          \<and> collector s = NotStarted \<and> numWorkers b \<le> int (length (workers s))
          | WaitWorkers \<Rightarrow> sent s = length (imageURLs b) \<and> closed s
                          \<and> collector s \<noteq> NotStarted \<and> numWorkers b \<le> int (length (workers s))
          | WaitCollector \<Rightarrow> sent s = length (imageURLs b) \<and> closed s
                          \<and> collector s \<noteq> NotStarted \<and> numWorkers b \<le> int (length (workers s))
                          \<and> list_all (\<lambda>w. w = Exited) (workers s)
          | Returned \<Rightarrow> sent s = length (imageURLs b) \<and> closed s
                          \<and> collector s = Finished \<and> numWorkers b \<le> int (length (workers s))
                          \<and> list_all (\<lambda>w. w = Exited) (workers s))
      \<and> (Exited \<in> set (workers s) \<longrightarrow> closed s \<and> jobs s = [])
      \<and> (\<forall>i. collector s = Collecting i \<longrightarrow> i \<le> length (imageURLs b)))"

definition count :: "batch \<Rightarrow> pool \<Rightarrow> bool" where
  "count b s =
     (length (jobs s) + sum_list (map busy (workers s)) + length (results s)
        + collected (length (imageURLs b)) (collector s) = sent s)"

text \<open>
  \<open>content\<close>: every job, every result on its way and every entry stored comes from a
  reference submitted so far, and an entry is stored under its own \<^verbatim>\<open>ImageURL\<close>.
  \<open>cover\<close>: every reference submitted so far is on its way or has an entry.
\<close>

fun holds :: "worker \<Rightarrow> string set" where
  "holds (Processing i imageURL) = {imageURL}"
| "holds (Delivering result) = {ImageURL result}"
| "holds Receiving = {}"
| "holds Exited = {}"

definition pending :: "pool \<Rightarrow> string set" where
  "pending s =
     snd ` set (jobs s) \<union> (\<Union>w \<in> set (workers s). holds w) \<union> ImageURL ` set (results s)"

definition result_ok :: "batch \<Rightarrow> nat \<Rightarrow> ImageScanResult \<Rightarrow> bool" where
  "result_ok b n r = (\<exists>i < n. r = task b i)"

definition job_ok :: "batch \<Rightarrow> nat \<Rightarrow> nat \<times> string \<Rightarrow> bool" where
  "job_ok b n j = (fst j < n \<and> snd j = imageURLs b ! fst j)"

fun worker_ok :: "batch \<Rightarrow> nat \<Rightarrow> worker \<Rightarrow> bool" where
  "worker_ok b n (Processing i imageURL) = job_ok b n (i, imageURL)"
| "worker_ok b n (Delivering result) = result_ok b n result"
| "worker_ok b n Receiving = True"
| "worker_ok b n Exited = True"

definition content :: "batch \<Rightarrow> pool \<Rightarrow> bool" where
  "content b s =
     (list_all (job_ok b (sent s)) (jobs s)
      \<and> list_all (worker_ok b (sent s)) (workers s)
      \<and> list_all (result_ok b (sent s)) (results s)
      \<and> (\<forall>u r. allResults s u = Some r \<longrightarrow> u = ImageURL r \<and> result_ok b (sent s) r))"

definition cover :: "batch \<Rightarrow> pool \<Rightarrow> bool" where
  "cover b s = (\<forall>i < sent s. imageURLs b ! i \<in> pending s \<union> dom (allResults s))"

definition inv :: "batch \<Rightarrow> pool \<Rightarrow> bool" where
  "inv b s = (ctrl b s \<and> count b s \<and> content b s \<and> cover b s)"

text \<open>
  The number of steps a state still allows, at most: each job is sent, received,
  processed, delivered and collected, each worker started and left, and the caller and
  the collector run through their statements.
\<close>

fun rank :: "main_pc \<Rightarrow> nat" where
  "rank StartWorkers = 7"
| "rank SendJobs = 6"
| "rank CloseJobs = 5"
| "rank StartCollector = 4"
| "rank WaitWorkers = 2"
| "rank WaitCollector = 1"
| "rank Returned = 0"

fun effort :: "worker \<Rightarrow> nat" where
  "effort Receiving = 1"
| "effort (Processing i imageURL) = 4"
| "effort (Delivering result) = 3"
| "effort Exited = 0"

fun remaining :: "collector \<Rightarrow> nat" where
  "remaining NotStarted = 1"
| "remaining (Collecting i) = 1"
| "remaining Finished = 0"

definition potential :: "batch \<Rightarrow> pool \<Rightarrow> nat" where
  "potential b s =
     rank (main s) + 2 * (nat (numWorkers b) - length (workers s))
       + 5 * (length (imageURLs b) - sent s) + 4 * length (jobs s)
       + sum_list (map effort (workers s)) + length (results s) + remaining (collector s)"





section \<open>Sample batches\<close>

text \<open>
  A second image; a registry that answers for both images and one that refuses every
  request; the results the sample tasks give; and three batches with a schedule each:
  the same reference twice with two workers, the first task meeting the registry down
  and the second meeting it up; two references with one worker; and the empty batch.
  \<open>outage\<close> takes the registry down for the second task only.
\<close>

definition flannel :: string where
  "flannel = ''quay.io/coreos/flannel:v0.15.1''"

definition flannel_found :: "string \<times> (error + http_response)" where
  "flannel_found =
     (''https://quay.io/api/v1/repository/coreos/flannel/tag/v0.15.1'',
      response 200 ''200 OK'' ''docker_image_id=def456'')"

definition flannel_scanned :: "string \<times> (error + http_response)" where
  "flannel_scanned =
     (''https://quay.io/api/v1/repository/coreos/flannel/image/def456/security?vulnerabilities=true'',
      response 200 ''200 OK'' ''status=scanned'')"

definition registry_up :: world where
  "registry_up = sample_world [tag_found, report_scanned, flannel_found, flannel_scanned]"

definition registry_down :: world where
  "registry_down = sample_world []"

definition scanned :: "string \<Rightarrow> ImageScanResult" where
  "scanned imageURL =
     \<lparr>ImageURL = imageURL, Report = Some (SecurityReport_zero\<lparr>Status := ''scanned''\<rparr>),
      Error = ''''\<rparr>"

definition etcd_refused :: ImageScanResult where
  "etcd_refused =
     \<lparr>ImageURL = etcd, Report = None,
      Error = ''Getting image ID failed: failed to get tag details for coreos/etcd:v3.5.0: ''
                @ ''failed to execute request for '' @ tag_url @ '': connection refused''\<rparr>"

definition flannel_refused :: ImageScanResult where
  "flannel_refused =
     \<lparr>ImageURL = flannel, Report = None,
      Error = ''Getting image ID failed: failed to get tag details for coreos/flannel:v0.15.1: ''
                @ ''failed to execute request for ''
                @ ''https://quay.io/api/v1/repository/coreos/flannel/tag/v0.15.1''
                @ '': connection refused''\<rparr>"



definition calm_batch :: batch where
  "calm_batch =
     \<lparr>imageURLs = [etcd, flannel], quayClient = sample_client, numWorkers = 1,
      remote = (\<lambda>i. registry_up)\<rparr>"

definition outage :: "nat \<Rightarrow> world" where
  "outage i = (if i = Suc 0 then registry_down else registry_up)"

definition calm_schedule :: "thread list" where
  "calm_schedule =
     [Main, Main, Main, Main, Main, Main, Main,
      Worker 0, Worker 0, Worker 0, Worker 0, Worker 0, Worker 0, Worker 0,
      Collector, Collector, Collector, Main, Main]"



section \<open>The later copy of the client and of the task\<close>

text \<open>
  The sources hold a second, later copy of internal/quay/client.go and of
  cmd/quay-scanner/main.go. In it the client carries its user agent, a transport
  failure reads \<^verbatim>\<open>failed to execute request to\<close>, and \<^verbatim>\<open>GetImageID\<close> and
  \<^verbatim>\<open>GetVulnerabilities\<close> look for \<^verbatim>\<open>status 404\<close> in the text of the error of
  \<^verbatim>\<open>doRequest\<close> and answer it with an error of their own. \<^verbatim>\<open>parseImageURL\<close>,
  \<^verbatim>\<open>runWorkerPool\<close> and \<^verbatim>\<open>worker\<close> are the same in both copies;
  \<^verbatim>\<open>processImage\<close> differs in the message for an empty digest. The later
  definitions carry a prime.
\<close>

record Client' = Client +
  UserAgent :: string

definition request_sent' :: "Client' \<Rightarrow> string \<Rightarrow> string \<Rightarrow> http_request" where
  "request_sent' c method fullURL =
     (let req1 = Header_Set ''User-Agent'' (UserAgent c)
                   \<lparr>Method = method, URL = fullURL, Header = []\<rparr>
      in if Token c \<noteq> ''''
         then Header_Set ''Authorization'' (''Bearer '' @ Token c) req1
         else req1)"

definition doRequest' ::
  "world \<Rightarrow> Client' \<Rightarrow> string \<Rightarrow> string \<Rightarrow> (string \<Rightarrow> 'a \<Rightarrow> 'a \<times> error option) \<Rightarrow> 'a option
     \<Rightarrow> 'a option \<times> error option \<times> event list" where
  "doRequest' w c method path decode target =
     (case url_Parse w path of
        Inl err \<Rightarrow>
          (target, Some (Errorf_w (''invalid API path '' @ Quote w path @ '': '') err), [])
      | Inr relURL \<Rightarrow>
          let fullURL = ResolveReference w (BaseURL c) relURL
          in (case NewRequest w method fullURL of
                Inl err \<Rightarrow>
                  (target,
                   Some (Errorf_w (''failed to create request for '' @ fullURL @ '': '') err), [])
              | Inr req0 \<Rightarrow>
                  let req1 = Header_Set ''User-Agent'' (UserAgent c) req0;
                      req = (if Token c \<noteq> ''''
                             then Header_Set ''Authorization'' (''Bearer '' @ Token c) req1
                             else req1)
                  in (case Do w req of
                        Inl err \<Rightarrow>
                          (target,
                           Some (Errorf_w (''failed to execute request to '' @ fullURL @ '': '') err),
                           [HTTP req])
                      | Inr resp \<Rightarrow>
                          if resp_StatusCode resp \<noteq> 200
                          then (target, Some (statusError fullURL resp), [HTTP req])
                          else
                            (case target of
                               None \<Rightarrow> (None, None, [HTTP req])
                             | Some t \<Rightarrow>
                                 (case decode (resp_Body resp) t of
                                    (t', Some err) \<Rightarrow>
                                      (Some t',
                                       Some (Errorf_w
                                         (''failed to decode JSON response from '' @ fullURL @ '': '')
                                         err),
                                       [HTTP req])
                                  | (t', None) \<Rightarrow> (Some t', None, [HTTP req]))))))"

definition tagNotFound :: "string \<Rightarrow> string \<Rightarrow> error" where
  "tagNotFound repo tag =
     errorString (''tag '' @ apos @ tag @ apos @ '' not found in repository '' @ apos @ repo
                    @ apos @ '' (or repository is private/inaccessible)'')"

definition reportNotFound :: "string \<Rightarrow> string \<Rightarrow> error" where
  "reportNotFound repo imageDigest =
     errorString (''security information not found for image digest '' @ apos @ imageDigest
                    @ apos @ '' in repository '' @ apos @ repo @ apos
                    @ '' (image may not exist or scan data unavailable)'')"

definition GetImageID' ::
  "world \<Rightarrow> Client' \<Rightarrow> string \<Rightarrow> string \<Rightarrow> string \<times> error option \<times> event list" where
  "GetImageID' w c repo tag =
     (let path = ''repository/'' @ repo @ ''/tag/'' @ PathEscape w tag
      in case doRequest' w c ''GET'' path (Decode_TagDetail w) (Some TagDetail_zero) of
           (target, Some err, evs) \<Rightarrow>
             if Contains (ErrorText err) ''status 404''
             then ('''', Some (tagNotFound repo tag), evs)
             else ('''',
                   Some (Errorf_w (''failed to get tag details for '' @ repo @ '':'' @ tag @ '': '')
                           err),
                   evs)
         | (target, None, evs) \<Rightarrow>
             let tagDetail = (case target of Some t \<Rightarrow> t | None \<Rightarrow> TagDetail_zero)
             in if ManifestDigest tagDetail \<noteq> ''''
                then (TrimPrefix (ManifestDigest tagDetail) ''sha256:'', None, evs)
                else if ImageID tagDetail \<noteq> ''''
                then (TrimPrefix (ImageID tagDetail) ''sha256:'', None, evs)
                else ('''',
                      Some (errorString
                        (''could not determine image digest for tag '' @ apos @ tag @ apos
                           @ '' (no manifest_digest or docker_image_id found)'')),
                      evs))"

definition GetVulnerabilities' ::
  "world \<Rightarrow> Client' \<Rightarrow> string \<Rightarrow> string \<Rightarrow> SecurityReport option \<times> error option \<times> event list" where
  "GetVulnerabilities' w c repo imageDigest =
     (let path = ''repository/'' @ repo @ ''/image/'' @ imageDigest
                   @ ''/security?vulnerabilities=true''
      in case doRequest' w c ''GET'' path (Decode_SecurityReport w) (Some SecurityReport_zero) of
           (target, Some err, evs) \<Rightarrow>
             if Contains (ErrorText err) ''status 404''
             then (None, Some (reportNotFound repo imageDigest), evs)
             else (None,
                   Some (Errorf_w (''failed to get security info for image '' @ imageDigest @ '': '')
                           err),
                   evs)
         | (target, None, evs) \<Rightarrow>
             let report = (case target of Some r \<Rightarrow> r | None \<Rightarrow> SecurityReport_zero)
             in (Some report, None,
                 evs @ (if Status report \<noteq> ''scanned''
                        then [Log (''WARN: Scan status for '' @ repo @ ''/'' @ imageDigest
                                     @ '' is '' @ apos @ Status report @ apos
                                     @ ''. Vulnerability data may be incomplete or unavailable.'')]
                        else [])))"

definition processImage' :: "world \<Rightarrow> Client' \<Rightarrow> string \<Rightarrow> ImageScanResult \<times> event list" where
  "processImage' w c imageURL =
     (let result = \<lparr>ImageURL = imageURL, Report = None, Error = ''''\<rparr>
      in case parseImageURL imageURL of
           (repo, tag, Some err) \<Rightarrow>
             (result\<lparr>Error := ''Parsing URL failed: '' @ ErrorText err\<rparr>, [])
         | (repo, tag, None) \<Rightarrow>
             (case GetImageID' w c repo tag of
                (imageID, Some err, evs) \<Rightarrow>
                  (result\<lparr>Error := ''Getting image ID failed: '' @ ErrorText err\<rparr>, evs)
              | (imageID, None, evs) \<Rightarrow>
                  if imageID = ''''
                  then (result\<lparr>Error := ''Could not find image ID for tag '' @ apos @ tag @ apos
                                           @ '' (tag might not exist or image details missing)''\<rparr>,
                        evs)
                  else
                    (case GetVulnerabilities' w c repo imageID of
                       (report, Some err, evs') \<Rightarrow>
                         let result' = result\<lparr>Error := ''Getting vulnerabilities failed: ''
                                                        @ ErrorText err\<rparr>
                         in ((if report \<noteq> None then result'\<lparr>Report := report\<rparr> else result'),
                             evs @ evs')
                     | (report, None, evs') \<Rightarrow> (result\<lparr>Report := report\<rparr>, evs @ evs'))))"

definition sample_client' :: Client' where
  "sample_client' =
     \<lparr>BaseURL = ''https://quay.io/api/v1/'', Token = '''', UserAgent = userAgent\<rparr>"

section \<open>Properties of the parser\<close>

lemma HasPrefix_append: "HasPrefix (p @ s) p"
  by (simp add: HasPrefix_def)

lemma TrimPrefix_append: "TrimPrefix (p @ s) p = s"
  by (simp add: TrimPrefix_def HasPrefix_def)

lemma HasPrefix_decomp: "HasPrefix s p \<Longrightarrow> s = p @ drop (length p) s"
  unfolding HasPrefix_def by (metis append_take_drop_id)

lemma SplitN2_first_colon:
  "CHR '':'' \<notin> set r \<Longrightarrow> SplitN2 (r @ '':'' @ t) = [r, t]"
  by (simp add: SplitN2_def takeWhile_append dropWhile_append)

lemma first_colon_decomp:
  assumes "CHR '':'' \<in> set s"
  shows "s = takeWhile (\<lambda>c. c \<noteq> CHR '':'') s @ '':'' @ tl (dropWhile (\<lambda>c. c \<noteq> CHR '':'') s)"
    and "CHR '':'' \<notin> set (takeWhile (\<lambda>c. c \<noteq> CHR '':'') s)"
proof -
  let ?d = "dropWhile (\<lambda>c. c \<noteq> CHR '':'') s"
  have ne: "?d \<noteq> []" using assms by (simp add: dropWhile_eq_Nil_conv)
  then have "hd ?d = CHR '':''" using hd_dropWhile[of "\<lambda>c. c \<noteq> CHR '':''" s] by simp
  with ne have "?d = '':'' @ tl ?d" by (cases ?d) auto
  then show "s = takeWhile (\<lambda>c. c \<noteq> CHR '':'') s @ '':'' @ tl ?d"
    by (metis takeWhile_dropWhile_id)
  show "CHR '':'' \<notin> set (takeWhile (\<lambda>c. c \<noteq> CHR '':'') s)"
    by (auto dest: set_takeWhileD)
qed

lemma parse_parts:
  assumes "CHR '':'' \<notin> set repo"
  shows "parseImageURL (''quay.io/'' @ repo @ '':'' @ tag) =
     (if repo = '''' \<or> tag = ''''
      then ('''', '''',
            Some (errorString (''invalid image URL format. Expected '' @ apos
                      @ ''quay.io/repository/name:tag'' @ apos @ '', got '' @ apos
                      @ (''quay.io/'' @ repo @ '':'' @ tag) @ apos)))
      else if Contains repo ''..'' \<or> Contains tag ''..'' \<or> Contains tag ''/''
      then (repo, tag, Some (errorString ''invalid characters in repository or tag''))
      else (repo, tag, None))"
proof -
  have p: "HasPrefix (''quay.io/'' @ repo @ '':'' @ tag) ''quay.io/''"
    by (rule HasPrefix_append)
  have t: "TrimPrefix (''quay.io/'' @ repo @ '':'' @ tag) ''quay.io/'' = repo @ '':'' @ tag"
    by (rule TrimPrefix_append)
  have s: "SplitN2 (repo @ '':'' @ tag) = [repo, tag]"
    using assms by (rule SplitN2_first_colon)
  show ?thesis
    unfolding parseImageURL_def using p by (simp only: t s Let_def) simp
qed

lemma parse_no_colon:
  assumes "HasPrefix s ''quay.io/''" and "CHR '':'' \<notin> set (TrimPrefix s ''quay.io/'')"
  shows "parseImageURL s = ('''', '''',
            Some (errorString (''invalid image URL format. Expected '' @ apos
                      @ ''quay.io/repository/name:tag'' @ apos @ '', got '' @ apos
                      @ s @ apos)))"
proof -
  have "SplitN2 (TrimPrefix s ''quay.io/'') = [TrimPrefix s ''quay.io/'']"
    using assms(2) by (simp only: SplitN2_def if_False)
  then show ?thesis
    unfolding parseImageURL_def using assms(1) by (simp only: Let_def) simp
qed

lemma split_cases:
  assumes "HasPrefix s ''quay.io/''"
  shows "CHR '':'' \<notin> set (TrimPrefix s ''quay.io/'')
     \<or> (\<exists>r t. s = ''quay.io/'' @ r @ '':'' @ t \<and> CHR '':'' \<notin> set r)"
proof (cases "CHR '':'' \<in> set (TrimPrefix s ''quay.io/'')")
  case True
  have "s = ''quay.io/'' @ TrimPrefix s ''quay.io/''"
    using HasPrefix_decomp[OF assms] assms by (simp only: TrimPrefix_def if_True)
  with first_colon_decomp[OF True] show ?thesis by metis
next
  case False
  then show ?thesis by simp
qed

text \<open>
  Claim C7. A reference made of the host prefix \<^verbatim>\<open>quay.io/\<close>, a non-empty repository
  without a colon, a colon and a non-empty tag, where neither part contains \<^verbatim>\<open>..\<close>
  and the tag contains no \<^verbatim>\<open>/\<close>, parses without error to exactly that repository and
  that tag. The repository ends at the first colon; the tag may hold further colons.
\<close>

theorem parseImageURL_valid:
  assumes "repo \<noteq> ''''" and "tag \<noteq> ''''" and "CHR '':'' \<notin> set repo"
    and "\<not> Contains repo ''..''" and "\<not> Contains tag ''..''" and "\<not> Contains tag ''/''"
  shows "parseImageURL (''quay.io/'' @ repo @ '':'' @ tag) = (repo, tag, None)"
  using assms parse_parts [of repo tag] by simp

text \<open>Witness for C7: a tag that itself contains a colon.\<close>

theorem parseImageURL_valid_witness:
  "parseImageURL ''quay.io/coreos/etcd:v3.5.0:rc'' = (''coreos/etcd'', ''v3.5.0:rc'', None)"
  using parseImageURL_valid [of "''coreos/etcd''" "''v3.5.0:rc''"]
  by (simp add: HasPrefix_def)

lemma parse_failures:
  "(snd (snd (parseImageURL s)) = None) =
     (\<exists>repo tag. s = ''quay.io/'' @ repo @ '':'' @ tag \<and> CHR '':'' \<notin> set repo
        \<and> repo \<noteq> '''' \<and> tag \<noteq> ''''
        \<and> \<not> Contains repo ''..'' \<and> \<not> Contains tag ''..'' \<and> \<not> Contains tag ''/'')
   \<and> (\<not> HasPrefix s ''quay.io/'' \<longrightarrow>
        parseImageURL s =
          ('''', '''',
           Some (errorString (''image URL must start with '' @ apos @ ''quay.io/'' @ apos))))
   \<and> (HasPrefix s ''quay.io/''
        \<and> (\<nexists>repo tag. s = ''quay.io/'' @ repo @ '':'' @ tag \<and> CHR '':'' \<notin> set repo
              \<and> repo \<noteq> '''' \<and> tag \<noteq> '''') \<longrightarrow>
        parseImageURL s =
          ('''', '''',
           Some (errorString (''invalid image URL format. Expected '' @ apos
                   @ ''quay.io/repository/name:tag'' @ apos @ '', got '' @ apos @ s @ apos))))
   \<and> (\<forall>repo tag. s = ''quay.io/'' @ repo @ '':'' @ tag \<and> CHR '':'' \<notin> set repo
          \<and> repo \<noteq> '''' \<and> tag \<noteq> ''''
          \<and> (Contains repo ''..'' \<or> Contains tag ''..'' \<or> Contains tag ''/'') \<longrightarrow>
        snd (snd (parseImageURL s)) =
          Some (errorString ''invalid characters in repository or tag''))"
proof (intro conjI impI allI)
  show "(snd (snd (parseImageURL s)) = None) =
     (\<exists>repo tag. s = ''quay.io/'' @ repo @ '':'' @ tag \<and> CHR '':'' \<notin> set repo
        \<and> repo \<noteq> '''' \<and> tag \<noteq> ''''
        \<and> \<not> Contains repo ''..'' \<and> \<not> Contains tag ''..'' \<and> \<not> Contains tag ''/'')"
  proof
    assume "\<exists>repo tag. s = ''quay.io/'' @ repo @ '':'' @ tag \<and> CHR '':'' \<notin> set repo
        \<and> repo \<noteq> '''' \<and> tag \<noteq> ''''
        \<and> \<not> Contains repo ''..'' \<and> \<not> Contains tag ''..'' \<and> \<not> Contains tag ''/''"
    then obtain r t where s: "s = ''quay.io/'' @ r @ '':'' @ t" and c: "CHR '':'' \<notin> set r"
      and v: "r \<noteq> ''''" "t \<noteq> ''''" "\<not> Contains r ''..''" "\<not> Contains t ''..''"
             "\<not> Contains t ''/''"
      by blast
    show "snd (snd (parseImageURL s)) = None"
      unfolding s parse_parts [OF c] using v by simp
  next
    assume l: "snd (snd (parseImageURL s)) = None"
    then have hp: "HasPrefix s ''quay.io/''"
      by (auto simp: parseImageURL_def split: if_splits)
    from split_cases [OF hp]
    show "\<exists>repo tag. s = ''quay.io/'' @ repo @ '':'' @ tag \<and> CHR '':'' \<notin> set repo
        \<and> repo \<noteq> '''' \<and> tag \<noteq> ''''
        \<and> \<not> Contains repo ''..'' \<and> \<not> Contains tag ''..'' \<and> \<not> Contains tag ''/''"
    proof
      assume "CHR '':'' \<notin> set (TrimPrefix s ''quay.io/'')"
      with hp l show ?thesis by (simp add: parse_no_colon)
    next
      assume "\<exists>r t. s = ''quay.io/'' @ r @ '':'' @ t \<and> CHR '':'' \<notin> set r"
      then obtain r t where s: "s = ''quay.io/'' @ r @ '':'' @ t" and c: "CHR '':'' \<notin> set r"
        by blast
      from l have "snd (snd (parseImageURL (''quay.io/'' @ r @ '':'' @ t))) = None"
        using s by simp
      then have "r \<noteq> '''' \<and> t \<noteq> '''' \<and> \<not> Contains r ''..'' \<and> \<not> Contains t ''..''
                   \<and> \<not> Contains t ''/''"
        unfolding parse_parts [OF c] by (auto split: if_splits)
      with s c show ?thesis by blast
    qed
  qed
next
  assume "\<not> HasPrefix s ''quay.io/''"
  then show "parseImageURL s =
          ('''', '''',
           Some (errorString (''image URL must start with '' @ apos @ ''quay.io/'' @ apos)))"
    by (simp add: parseImageURL_def)
next
  assume a: "HasPrefix s ''quay.io/''
        \<and> (\<nexists>repo tag. s = ''quay.io/'' @ repo @ '':'' @ tag \<and> CHR '':'' \<notin> set repo
              \<and> repo \<noteq> '''' \<and> tag \<noteq> '''')"
  then have hp: "HasPrefix s ''quay.io/''" by blast
  from split_cases [OF hp]
  show "parseImageURL s =
          ('''', '''',
           Some (errorString (''invalid image URL format. Expected '' @ apos
                   @ ''quay.io/repository/name:tag'' @ apos @ '', got '' @ apos @ s @ apos)))"
  proof
    assume "CHR '':'' \<notin> set (TrimPrefix s ''quay.io/'')"
    with hp show ?thesis by (rule parse_no_colon)
  next
    assume "\<exists>r t. s = ''quay.io/'' @ r @ '':'' @ t \<and> CHR '':'' \<notin> set r"
    then obtain r t where s: "s = ''quay.io/'' @ r @ '':'' @ t" and c: "CHR '':'' \<notin> set r"
      by blast
    with a have "r = '''' \<or> t = ''''" by blast
    then show ?thesis unfolding s parse_parts [OF c] by simp
  qed
next
  fix repo tag
  assume a: "s = ''quay.io/'' @ repo @ '':'' @ tag \<and> CHR '':'' \<notin> set repo
          \<and> repo \<noteq> '''' \<and> tag \<noteq> ''''
          \<and> (Contains repo ''..'' \<or> Contains tag ''..'' \<or> Contains tag ''/'')"
  then have s: "s = ''quay.io/'' @ repo @ '':'' @ tag" and c: "CHR '':'' \<notin> set repo" by blast+
  show "snd (snd (parseImageURL s)) =
          Some (errorString ''invalid characters in repository or tag'')"
    unfolding s parse_parts [OF c] using a by auto
qed

text \<open>
  Claim C8. The parser returns no error exactly on the references of the valid form of
  C7, so it fails exactly on the three kinds of input the claim lists: without the
  host prefix it fails with the prefix error; with the prefix, but no split at the
  first colon into two non-empty parts, it fails with the format error; with such a
  split, but \<^verbatim>\<open>..\<close> in a part or \<^verbatim>\<open>/\<close> in the tag, it fails with the
  invalid-characters error. Beside the first two errors the repository and the tag
  returned are empty; beside the third they are the two parts of the split, both
  non-empty. So the pair is never half filled, and \<^verbatim>\<open>processImage\<close> takes
  nothing but the error from a parse that failed.
\<close>

theorem parseImageURL_failures:
  "(snd (snd (parseImageURL s)) = None) =
     (\<exists>repo tag. s = ''quay.io/'' @ repo @ '':'' @ tag \<and> CHR '':'' \<notin> set repo
        \<and> repo \<noteq> '''' \<and> tag \<noteq> ''''
        \<and> \<not> Contains repo ''..'' \<and> \<not> Contains tag ''..'' \<and> \<not> Contains tag ''/'')
   \<and> (\<not> HasPrefix s ''quay.io/'' \<longrightarrow>
        parseImageURL s =
          ('''', '''',
           Some (errorString (''image URL must start with '' @ apos @ ''quay.io/'' @ apos))))
   \<and> (HasPrefix s ''quay.io/''
        \<and> (\<nexists>repo tag. s = ''quay.io/'' @ repo @ '':'' @ tag \<and> CHR '':'' \<notin> set repo
              \<and> repo \<noteq> '''' \<and> tag \<noteq> '''') \<longrightarrow>
        parseImageURL s =
          ('''', '''',
           Some (errorString (''invalid image URL format. Expected '' @ apos
                   @ ''quay.io/repository/name:tag'' @ apos @ '', got '' @ apos @ s @ apos))))
   \<and> (\<forall>repo tag. s = ''quay.io/'' @ repo @ '':'' @ tag \<and> CHR '':'' \<notin> set repo
          \<and> repo \<noteq> '''' \<and> tag \<noteq> ''''
          \<and> (Contains repo ''..'' \<or> Contains tag ''..'' \<or> Contains tag ''/'') \<longrightarrow>
        snd (snd (parseImageURL s)) =
          Some (errorString ''invalid characters in repository or tag''))
   \<and> (\<forall>repo tag. s = ''quay.io/'' @ repo @ '':'' @ tag \<and> CHR '':'' \<notin> set repo
          \<and> repo \<noteq> '''' \<and> tag \<noteq> ''''
          \<and> (Contains repo ''..'' \<or> Contains tag ''..'' \<or> Contains tag ''/'') \<longrightarrow>
        parseImageURL s =
          (repo, tag, Some (errorString ''invalid characters in repository or tag'')))
   \<and> (fst (parseImageURL s) = '''') = (fst (snd (parseImageURL s)) = '''')
   \<and> (\<forall>e. snd (snd (parseImageURL s)) = Some e \<longrightarrow>
        processImage w c s =
          (\<lparr>ImageURL = s, Report = None, Error = ''Parsing URL failed: '' @ ErrorText e\<rparr>,
           []))"
proof -
  have complete: "parseImageURL s =
          (repo, tag, Some (errorString ''invalid characters in repository or tag''))"
    if a: "s = ''quay.io/'' @ repo @ '':'' @ tag \<and> CHR '':'' \<notin> set repo
          \<and> repo \<noteq> '''' \<and> tag \<noteq> ''''
          \<and> (Contains repo ''..'' \<or> Contains tag ''..'' \<or> Contains tag ''/'')" for repo tag
  proof -
    from a have s: "s = ''quay.io/'' @ repo @ '':'' @ tag" and c: "CHR '':'' \<notin> set repo"
      by blast+
    show ?thesis unfolding s parse_parts [OF c] using a by auto
  qed
  have whole: "(fst (parseImageURL s) = '''') = (fst (snd (parseImageURL s)) = '''')"
  proof (cases "HasPrefix s ''quay.io/''")
    case False
    then show ?thesis by (simp add: parseImageURL_def)
  next
    case True
    from split_cases [OF True] show ?thesis
    proof
      assume "CHR '':'' \<notin> set (TrimPrefix s ''quay.io/'')"
      with True show ?thesis by (simp add: parse_no_colon)
    next
      assume "\<exists>r t. s = ''quay.io/'' @ r @ '':'' @ t \<and> CHR '':'' \<notin> set r"
      then obtain r t where s: "s = ''quay.io/'' @ r @ '':'' @ t" and c: "CHR '':'' \<notin> set r"
        by blast
      show ?thesis unfolding s parse_parts [OF c] by auto
    qed
  qed
  have caller: "processImage w c s =
          (\<lparr>ImageURL = s, Report = None, Error = ''Parsing URL failed: '' @ ErrorText e\<rparr>,
           [])"
    if "snd (snd (parseImageURL s)) = Some e" for e
    using that by (cases "parseImageURL s") (simp add: processImage_def)
  note old = parse_failures [of s]
  show ?thesis
  proof (intro conjI)
    show "(snd (snd (parseImageURL s)) = None) =
     (\<exists>repo tag. s = ''quay.io/'' @ repo @ '':'' @ tag \<and> CHR '':'' \<notin> set repo
        \<and> repo \<noteq> '''' \<and> tag \<noteq> ''''
        \<and> \<not> Contains repo ''..'' \<and> \<not> Contains tag ''..'' \<and> \<not> Contains tag ''/'')"
      using old by (elim conjE)
    show "\<not> HasPrefix s ''quay.io/'' \<longrightarrow>
        parseImageURL s =
          ('''', '''',
           Some (errorString (''image URL must start with '' @ apos @ ''quay.io/'' @ apos)))"
      using old by (elim conjE)
    show "HasPrefix s ''quay.io/''
        \<and> (\<nexists>repo tag. s = ''quay.io/'' @ repo @ '':'' @ tag \<and> CHR '':'' \<notin> set repo
              \<and> repo \<noteq> '''' \<and> tag \<noteq> '''') \<longrightarrow>
        parseImageURL s =
          ('''', '''',
           Some (errorString (''invalid image URL format. Expected '' @ apos
                   @ ''quay.io/repository/name:tag'' @ apos @ '', got '' @ apos @ s @ apos)))"
      using old by (elim conjE)
    show "\<forall>repo tag. s = ''quay.io/'' @ repo @ '':'' @ tag \<and> CHR '':'' \<notin> set repo
          \<and> repo \<noteq> '''' \<and> tag \<noteq> ''''
          \<and> (Contains repo ''..'' \<or> Contains tag ''..'' \<or> Contains tag ''/'') \<longrightarrow>
        snd (snd (parseImageURL s)) =
          Some (errorString ''invalid characters in repository or tag'')"
      using old by (elim conjE)
    show "\<forall>repo tag. s = ''quay.io/'' @ repo @ '':'' @ tag \<and> CHR '':'' \<notin> set repo
          \<and> repo \<noteq> '''' \<and> tag \<noteq> ''''
          \<and> (Contains repo ''..'' \<or> Contains tag ''..'' \<or> Contains tag ''/'') \<longrightarrow>
        parseImageURL s =
          (repo, tag, Some (errorString ''invalid characters in repository or tag''))"
      using complete by (intro allI impI)
    show "(fst (parseImageURL s) = '''') = (fst (snd (parseImageURL s)) = '''')"
      by (rule whole)
    show "\<forall>e. snd (snd (parseImageURL s)) = Some e \<longrightarrow>
        processImage w c s =
          (\<lparr>ImageURL = s, Report = None, Error = ''Parsing URL failed: '' @ ErrorText e\<rparr>,
           [])"
      using caller by (intro allI impI)
  qed
qed

text \<open>Witness for C8: one reference of each failing kind, and one that parses.\<close>

theorem parseImageURL_failures_witness:
  "parseImageURL ''docker.io/coreos/etcd:v3.5.0'' =
     ('''', '''', Some (errorString (''image URL must start with '' @ apos @ ''quay.io/'' @ apos)))
   \<and> parseImageURL ''quay.io/etcd'' =
     ('''', '''',
      Some (errorString (''invalid image URL format. Expected '' @ apos
              @ ''quay.io/repository/name:tag'' @ apos @ '', got '' @ apos @ ''quay.io/etcd''
              @ apos)))
   \<and> snd (snd (parseImageURL ''quay.io/a..b:t'')) =
       Some (errorString ''invalid characters in repository or tag'')
   \<and> snd (snd (parseImageURL ''quay.io/coreos/etcd:v3.5.0'')) = None"
proof -
  have a: "parseImageURL ''docker.io/coreos/etcd:v3.5.0'' =
     ('''', '''', Some (errorString (''image URL must start with '' @ apos @ ''quay.io/'' @ apos)))"
    using parseImageURL_failures [of "''docker.io/coreos/etcd:v3.5.0''"]
    by (simp add: HasPrefix_def)
  have n: "\<nexists>repo tag. ''quay.io/etcd'' = ''quay.io/'' @ repo @ '':'' @ tag
              \<and> CHR '':'' \<notin> set repo \<and> repo \<noteq> '''' \<and> tag \<noteq> ''''"
  proof
    assume "\<exists>repo tag. ''quay.io/etcd'' = ''quay.io/'' @ repo @ '':'' @ tag
              \<and> CHR '':'' \<notin> set repo \<and> repo \<noteq> '''' \<and> tag \<noteq> ''''"
    then obtain repo tag where "''etcd'' = repo @ '':'' @ tag" by auto
    then have "set ''etcd'' = set (repo @ '':'' @ tag)" by (rule arg_cong)
    then show False by auto
  qed
  have b: "parseImageURL ''quay.io/etcd'' =
     ('''', '''',
      Some (errorString (''invalid image URL format. Expected '' @ apos
              @ ''quay.io/repository/name:tag'' @ apos @ '', got '' @ apos @ ''quay.io/etcd''
              @ apos)))"
    using parseImageURL_failures [of "''quay.io/etcd''"] n
    by (simp add: HasPrefix_def)
  have "''quay.io/a..b:t'' = ''quay.io/'' @ ''a..b'' @ '':'' @ ''t'' \<and> CHR '':'' \<notin> set ''a..b''
          \<and> ''a..b'' \<noteq> '''' \<and> ''t'' \<noteq> ''''
          \<and> (Contains ''a..b'' ''..'' \<or> Contains ''t'' ''..'' \<or> Contains ''t'' ''/'')"
    by (simp add: HasPrefix_def)
  with parseImageURL_failures [of "''quay.io/a..b:t''"]
  have c: "snd (snd (parseImageURL ''quay.io/a..b:t'')) =
       Some (errorString ''invalid characters in repository or tag'')"
    by blast
  have "''quay.io/coreos/etcd:v3.5.0'' = ''quay.io/'' @ ''coreos/etcd'' @ '':'' @ ''v3.5.0''
          \<and> CHR '':'' \<notin> set ''coreos/etcd'' \<and> ''coreos/etcd'' \<noteq> '''' \<and> ''v3.5.0'' \<noteq> ''''
          \<and> \<not> Contains ''coreos/etcd'' ''..'' \<and> \<not> Contains ''v3.5.0'' ''..''
          \<and> \<not> Contains ''v3.5.0'' ''/''"
    by (simp add: HasPrefix_def)
  with parseImageURL_failures [of "''quay.io/coreos/etcd:v3.5.0''"]
  have d: "snd (snd (parseImageURL ''quay.io/coreos/etcd:v3.5.0'')) = None"
    by blast
  from a b c d show ?thesis by blast
qed

section \<open>Properties of the client and of the task\<close>

lemma request_sent_doRequest:
  assumes "url_Parse w path = Inr rel"
    and "NewRequest_err w m (ResolveReference w (BaseURL c) rel) = None"
    and "Do w (request_sent c m (ResolveReference w (BaseURL c) rel)) = Inr resp"
  shows "doRequest w c m path decode target =
     (if resp_StatusCode resp \<noteq> 200
      then (target, Some (statusError (ResolveReference w (BaseURL c) rel) resp),
            [HTTP (request_sent c m (ResolveReference w (BaseURL c) rel))])
      else case target of
             None \<Rightarrow> (None, None, [HTTP (request_sent c m (ResolveReference w (BaseURL c) rel))])
           | Some t \<Rightarrow>
               (Some (fst (decode (resp_Body resp) t)),
                map_option (Errorf_w (''failed to decode JSON response from ''
                              @ ResolveReference w (BaseURL c) rel @ '': ''))
                  (snd (decode (resp_Body resp) t)),
                [HTTP (request_sent c m (ResolveReference w (BaseURL c) rel))]))"
  using assms
  by (simp add: doRequest_def NewRequest_def request_sent_def Let_def
      split: option.splits prod.splits)

lemma GetImageID_error_empty:
  "fst (snd (GetImageID w c repo tag)) \<noteq> None \<Longrightarrow> fst (GetImageID w c repo tag) = ''''"
  by (simp add: GetImageID_def Let_def split: prod.splits option.splits if_splits)

lemma GetVulnerabilities_report_xor_error:
  "(fst (GetVulnerabilities w c repo d) = None) = (fst (snd (GetVulnerabilities w c repo d)) \<noteq> None)"
  by (simp add: GetVulnerabilities_def Let_def split: prod.splits option.splits)

lemma TrimPrefix_empty_iff: "s \<noteq> '''' \<Longrightarrow> (TrimPrefix s p = '''') = (s = p)"
  by (auto simp: TrimPrefix_def HasPrefix_def)

lemma TrimPrefix_unchanged: "\<not> HasPrefix s p \<Longrightarrow> TrimPrefix s p = s"
  by (simp add: TrimPrefix_def)

lemma sample_tag_request:
  "request_sent sample_client ''GET'' tag_url =
     \<lparr>Method = ''GET'', URL = tag_url, Header = [(''User-Agent'', userAgent)]\<rparr>"
  by (simp add: request_sent_def sample_client_def Header_Set_def)

lemma sample_sec_request:
  "request_sent sample_client ''GET'' sec_url =
     \<lparr>Method = ''GET'', URL = sec_url, Header = [(''User-Agent'', userAgent)]\<rparr>"
  by (simp add: request_sent_def sample_client_def Header_Set_def)

lemma sample_world_simps:
  "url_Parse (sample_world a) p = Inr p"
  "ResolveReference (sample_world a) b r = b @ r"
  "PathEscape (sample_world a) s = s"
  "NewRequest_err (sample_world a) m u = None"
  "Do (sample_world a) req =
     (case map_of a (URL req) of Some r \<Rightarrow> r | None \<Rightarrow> Inl (libError ''connection refused''))"
  "Decode_TagDetail (sample_world a) = sample_decode_tag"
  "Decode_SecurityReport (sample_world a) = sample_decode_report"
  by (simp_all add: sample_world_def)

lemmas sample_defs =
  sample_world_simps sample_client_def tag_url_def sec_url_def response_def
  sample_decode_tag_def sample_decode_report_def tag_found_def report_scanned_def
  tag_request_def sec_request_def not_found_def
  HasPrefix_def TrimPrefix_def TagDetail_zero_def SecurityReport_zero_def

lemma parse_etcd: "parseImageURL etcd = (''coreos/etcd'', ''v3.5.0'', None)"
  by (simp add: etcd_def parseImageURL_def HasPrefix_def TrimPrefix_def SplitN2_def)

lemma parse_docker:
  "parseImageURL ''docker.io/coreos/etcd:v3.5.0'' =
     ('''', '''', Some (errorString (''image URL must start with '' @ apos @ ''quay.io/'' @ apos)))"
  by (simp add: parseImageURL_def HasPrefix_def)

lemma digest_not_found:
  "GetImageID (sample_world [(tag_url, Inr not_found)]) sample_client ''coreos/etcd'' ''v3.5.0'' =
     ('''',
      Some (Errorf_w ''failed to get tag details for coreos/etcd:v3.5.0: ''
              (statusError tag_url not_found)),
      [HTTP tag_request])"
  by (simp add: GetImageID_def doRequest_def NewRequest_def Header_Set_def Let_def sample_defs)

lemma digest_bare:
  "GetImageID (sample_world [(tag_url, response 200 ''200 OK'' ''manifest_digest=sha256:'')])
     sample_client ''coreos/etcd'' ''v3.5.0'' = ('''', None, [HTTP tag_request])"
  by (simp add: GetImageID_def doRequest_def NewRequest_def Header_Set_def Let_def sample_defs)

lemma digest_found:
  "GetImageID (sample_world (tag_found # rest)) sample_client ''coreos/etcd'' ''v3.5.0'' =
     (''abc123'', None, [HTTP tag_request])"
  by (simp add: GetImageID_def doRequest_def NewRequest_def Header_Set_def Let_def sample_defs)

lemma report_refused:
  "GetVulnerabilities (sample_world [tag_found]) sample_client ''coreos/etcd'' ''abc123'' =
     (None,
      Some (Errorf_w ''failed to get security info for image abc123: ''
              (Errorf_w (''failed to execute request for '' @ sec_url @ '': '')
                 (libError ''connection refused''))),
      [HTTP sec_request])"
  by (simp add: GetVulnerabilities_def doRequest_def NewRequest_def Header_Set_def Let_def
      sample_defs)

lemma report_found:
  "GetVulnerabilities (sample_world [tag_found, report_scanned]) sample_client
     ''coreos/etcd'' ''abc123'' =
     (Some (SecurityReport_zero\<lparr>Status := ''scanned''\<rparr>), None, [HTTP sec_request])"
  by (simp add: GetVulnerabilities_def doRequest_def NewRequest_def Header_Set_def Let_def
      sample_defs)

text \<open>
  Claim C2. \<^verbatim>\<open>processImage\<close> runs three steps and leaves at the first that fails.
  If the parser fails, the result holds the parse error and no report, and there is no
  event: no request was sent. If \<^verbatim>\<open>GetImageID\<close> fails or returns the empty digest,
  the result holds the error and no report, and the events are those of
  \<^verbatim>\<open>GetImageID\<close> alone: no security request was sent. If \<^verbatim>\<open>GetVulnerabilities\<close>
  fails, the result holds that error. If all three succeed the result holds the report
  and no error, and a result with a report and no error comes from no other path.
\<close>

theorem processImage_pipeline:
  "(parseImageURL imageURL = (repo, tag, Some perr) \<longrightarrow>
      processImage w c imageURL =
        (\<lparr>ImageURL = imageURL, Report = None,
          Error = ''Parsing URL failed: '' @ ErrorText perr\<rparr>, []))
   \<and> (parseImageURL imageURL = (repo, tag, None)
        \<and> GetImageID w c repo tag = (imageID, Some derr, evs) \<longrightarrow>
      processImage w c imageURL =
        (\<lparr>ImageURL = imageURL, Report = None,
          Error = ''Getting image ID failed: '' @ ErrorText derr\<rparr>, evs))
   \<and> (parseImageURL imageURL = (repo, tag, None)
        \<and> GetImageID w c repo tag = ('''', None, evs) \<longrightarrow>
      processImage w c imageURL =
        (\<lparr>ImageURL = imageURL, Report = None,
          Error = ''Could not find image ID for tag '' @ apos @ tag @ apos
                    @ '' (tag might not exist)''\<rparr>, evs))
   \<and> (parseImageURL imageURL = (repo, tag, None)
        \<and> GetImageID w c repo tag = (imageID, None, evs) \<and> imageID \<noteq> ''''
        \<and> GetVulnerabilities w c repo imageID = (report, Some verr, evs') \<longrightarrow>
      processImage w c imageURL =
        (\<lparr>ImageURL = imageURL, Report = None,
          Error = ''Getting vulnerabilities failed: '' @ ErrorText verr\<rparr>, evs @ evs'))
   \<and> (parseImageURL imageURL = (repo, tag, None)
        \<and> GetImageID w c repo tag = (imageID, None, evs) \<and> imageID \<noteq> ''''
        \<and> GetVulnerabilities w c repo imageID = (report, None, evs') \<longrightarrow>
      report \<noteq> None
      \<and> processImage w c imageURL =
        (\<lparr>ImageURL = imageURL, Report = report, Error = ''''\<rparr>, evs @ evs'))
   \<and> (Report (fst (processImage w c imageURL)) \<noteq> None
        \<and> Error (fst (processImage w c imageURL)) = '''' \<longrightarrow>
      (\<exists>r t d e r' e'. parseImageURL imageURL = (r, t, None)
         \<and> GetImageID w c r t = (d, None, e) \<and> d \<noteq> ''''
         \<and> GetVulnerabilities w c r d = (Some r', None, e')))"
proof (intro conjI impI)
  assume "parseImageURL imageURL = (repo, tag, Some perr)"
  then show "processImage w c imageURL =
        (\<lparr>ImageURL = imageURL, Report = None,
          Error = ''Parsing URL failed: '' @ ErrorText perr\<rparr>, [])"
    by (simp add: processImage_def)
next
  assume "parseImageURL imageURL = (repo, tag, None)
        \<and> GetImageID w c repo tag = (imageID, Some derr, evs)"
  then show "processImage w c imageURL =
        (\<lparr>ImageURL = imageURL, Report = None,
          Error = ''Getting image ID failed: '' @ ErrorText derr\<rparr>, evs)"
    by (simp add: processImage_def)
next
  assume "parseImageURL imageURL = (repo, tag, None)
        \<and> GetImageID w c repo tag = ('''', None, evs)"
  then show "processImage w c imageURL =
        (\<lparr>ImageURL = imageURL, Report = None,
          Error = ''Could not find image ID for tag '' @ apos @ tag @ apos
                    @ '' (tag might not exist)''\<rparr>, evs)"
    by (simp add: processImage_def)
next
  assume a: "parseImageURL imageURL = (repo, tag, None)
        \<and> GetImageID w c repo tag = (imageID, None, evs) \<and> imageID \<noteq> ''''
        \<and> GetVulnerabilities w c repo imageID = (report, Some verr, evs')"
  then have "report = None"
    using GetVulnerabilities_report_xor_error [of w c repo imageID] by simp
  with a show "processImage w c imageURL =
        (\<lparr>ImageURL = imageURL, Report = None,
          Error = ''Getting vulnerabilities failed: '' @ ErrorText verr\<rparr>, evs @ evs')"
    by (simp add: processImage_def)
next
  assume a: "parseImageURL imageURL = (repo, tag, None)
        \<and> GetImageID w c repo tag = (imageID, None, evs) \<and> imageID \<noteq> ''''
        \<and> GetVulnerabilities w c repo imageID = (report, None, evs')"
  then show "report \<noteq> None"
    using GetVulnerabilities_report_xor_error [of w c repo imageID] by simp
  from a show "processImage w c imageURL =
        (\<lparr>ImageURL = imageURL, Report = report, Error = ''''\<rparr>, evs @ evs')"
    by (simp add: processImage_def)
next
  assume a: "Report (fst (processImage w c imageURL)) \<noteq> None
        \<and> Error (fst (processImage w c imageURL)) = ''''"
  obtain r t pe where p: "parseImageURL imageURL = (r, t, pe)"
    by (cases "parseImageURL imageURL") auto
  obtain d de e where g: "GetImageID w c r t = (d, de, e)"
    by (cases "GetImageID w c r t") auto
  obtain r' ve e' where v: "GetVulnerabilities w c r d = (r', ve, e')"
    by (cases "GetVulnerabilities w c r d") auto
  have "pe = None" using a p by (cases pe) (simp_all add: processImage_def)
  moreover have "de = None" using a p g \<open>pe = None\<close>
    by (cases de) (simp_all add: processImage_def)
  moreover have "d \<noteq> ''''" using a p g \<open>pe = None\<close> \<open>de = None\<close>
    by (auto simp: processImage_def)
  moreover have "ve = None" using a p g v \<open>pe = None\<close> \<open>de = None\<close> \<open>d \<noteq> ''''\<close>
    by (cases ve) (simp_all add: processImage_def Let_def split: if_splits)
  moreover have "r' \<noteq> None" using a p g v \<open>pe = None\<close> \<open>de = None\<close> \<open>d \<noteq> ''''\<close> \<open>ve = None\<close>
    by (simp add: processImage_def)
  ultimately show "\<exists>r t d e r' e'. parseImageURL imageURL = (r, t, None)
         \<and> GetImageID w c r t = (d, None, e) \<and> d \<noteq> ''''
         \<and> GetVulnerabilities w c r d = (Some r', None, e')"
    using p g v by auto
qed

text \<open>
  Witness for C2: a reference without the host prefix; a tag the registry answers with
  404; a tag whose digest is the bare prefix; a digest whose report cannot be fetched;
  and a scanned image.
\<close>

theorem processImage_pipeline_witness:
  "processImage (sample_world []) sample_client ''docker.io/coreos/etcd:v3.5.0'' =
     (\<lparr>ImageURL = ''docker.io/coreos/etcd:v3.5.0'', Report = None,
       Error = ''Parsing URL failed: ''
                 @ ErrorText (errorString (''image URL must start with '' @ apos
                                @ ''quay.io/'' @ apos))\<rparr>, [])
   \<and> processImage (sample_world [(tag_url, Inr not_found)]) sample_client etcd =
     (\<lparr>ImageURL = etcd, Report = None,
       Error = ''Getting image ID failed: ''
                 @ ErrorText (Errorf_w ''failed to get tag details for coreos/etcd:v3.5.0: ''
                                (statusError tag_url not_found))\<rparr>,
      [HTTP tag_request])
   \<and> processImage (sample_world [(tag_url, response 200 ''200 OK'' ''manifest_digest=sha256:'')])
        sample_client etcd =
     (\<lparr>ImageURL = etcd, Report = None,
       Error = ''Could not find image ID for tag '' @ apos @ ''v3.5.0'' @ apos
                 @ '' (tag might not exist)''\<rparr>,
      [HTTP tag_request])
   \<and> processImage (sample_world [tag_found]) sample_client etcd =
     (\<lparr>ImageURL = etcd, Report = None,
       Error = ''Getting vulnerabilities failed: ''
                 @ ErrorText (Errorf_w ''failed to get security info for image abc123: ''
                     (Errorf_w (''failed to execute request for '' @ sec_url @ '': '')
                        (libError ''connection refused'')))\<rparr>,
      [HTTP tag_request] @ [HTTP sec_request])
   \<and> processImage (sample_world [tag_found, report_scanned]) sample_client etcd =
     (\<lparr>ImageURL = etcd, Report = Some (SecurityReport_zero\<lparr>Status := ''scanned''\<rparr>),
       Error = ''''\<rparr>,
      [HTTP tag_request] @ [HTTP sec_request])
   \<and> (\<exists>r t d e r' e'. parseImageURL etcd = (r, t, None)
         \<and> GetImageID (sample_world [tag_found, report_scanned]) sample_client r t = (d, None, e)
         \<and> d \<noteq> ''''
         \<and> GetVulnerabilities (sample_world [tag_found, report_scanned]) sample_client r d
             = (Some r', None, e'))"
proof -
  note p = processImage_pipeline
  have a: "processImage (sample_world []) sample_client ''docker.io/coreos/etcd:v3.5.0'' =
     (\<lparr>ImageURL = ''docker.io/coreos/etcd:v3.5.0'', Report = None,
       Error = ''Parsing URL failed: ''
                 @ ErrorText (errorString (''image URL must start with '' @ apos
                                @ ''quay.io/'' @ apos))\<rparr>, [])"
    using p [where imageURL = "''docker.io/coreos/etcd:v3.5.0''" and repo = "''''"
               and tag = "''''"
               and perr = "errorString (''image URL must start with '' @ apos @ ''quay.io/'' @ apos)"]
      parse_docker by blast
  have b: "processImage (sample_world [(tag_url, Inr not_found)]) sample_client etcd =
     (\<lparr>ImageURL = etcd, Report = None,
       Error = ''Getting image ID failed: ''
                 @ ErrorText (Errorf_w ''failed to get tag details for coreos/etcd:v3.5.0: ''
                                (statusError tag_url not_found))\<rparr>,
      [HTTP tag_request])"
    using p [where imageURL = etcd and repo = "''coreos/etcd''" and tag = "''v3.5.0''"
               and w = "sample_world [(tag_url, Inr not_found)]" and c = sample_client
               and imageID = "''''" and evs = "[HTTP tag_request]"
               and derr = "Errorf_w ''failed to get tag details for coreos/etcd:v3.5.0: ''
                                (statusError tag_url not_found)"]
      parse_etcd digest_not_found by blast
  have c: "processImage (sample_world [(tag_url, response 200 ''200 OK'' ''manifest_digest=sha256:'')])
        sample_client etcd =
     (\<lparr>ImageURL = etcd, Report = None,
       Error = ''Could not find image ID for tag '' @ apos @ ''v3.5.0'' @ apos
                 @ '' (tag might not exist)''\<rparr>,
      [HTTP tag_request])"
    using p [where imageURL = etcd and repo = "''coreos/etcd''" and tag = "''v3.5.0''"
               and w = "sample_world [(tag_url, response 200 ''200 OK'' ''manifest_digest=sha256:'')]"
               and c = sample_client and evs = "[HTTP tag_request]"]
      parse_etcd digest_bare by blast
  have d: "processImage (sample_world [tag_found]) sample_client etcd =
     (\<lparr>ImageURL = etcd, Report = None,
       Error = ''Getting vulnerabilities failed: ''
                 @ ErrorText (Errorf_w ''failed to get security info for image abc123: ''
                     (Errorf_w (''failed to execute request for '' @ sec_url @ '': '')
                        (libError ''connection refused'')))\<rparr>,
      [HTTP tag_request] @ [HTTP sec_request])"
    using p [where imageURL = etcd and repo = "''coreos/etcd''" and tag = "''v3.5.0''"
               and w = "sample_world [tag_found]" and c = sample_client
               and imageID = "''abc123''" and evs = "[HTTP tag_request]"
               and evs' = "[HTTP sec_request]" and report = None
               and verr = "Errorf_w ''failed to get security info for image abc123: ''
                     (Errorf_w (''failed to execute request for '' @ sec_url @ '': '')
                        (libError ''connection refused''))"]
      parse_etcd digest_found [of "[]"] report_refused by simp
  have e: "processImage (sample_world [tag_found, report_scanned]) sample_client etcd =
     (\<lparr>ImageURL = etcd, Report = Some (SecurityReport_zero\<lparr>Status := ''scanned''\<rparr>),
       Error = ''''\<rparr>,
      [HTTP tag_request] @ [HTTP sec_request])"
    using p [where imageURL = etcd and repo = "''coreos/etcd''" and tag = "''v3.5.0''"
               and w = "sample_world [tag_found, report_scanned]" and c = sample_client
               and imageID = "''abc123''" and evs = "[HTTP tag_request]"
               and evs' = "[HTTP sec_request]"
               and report = "Some (SecurityReport_zero\<lparr>Status := ''scanned''\<rparr>)"]
      parse_etcd digest_found [of "[report_scanned]"] report_found by simp
  have f: "\<exists>r t d e r' e'. parseImageURL etcd = (r, t, None)
         \<and> GetImageID (sample_world [tag_found, report_scanned]) sample_client r t = (d, None, e)
         \<and> d \<noteq> ''''
         \<and> GetVulnerabilities (sample_world [tag_found, report_scanned]) sample_client r d
             = (Some r', None, e')"
    using p [where imageURL = etcd and w = "sample_world [tag_found, report_scanned]"
               and c = sample_client] e
    by simp
  from a b c d e f show ?thesis by blast
qed

text \<open>
  Claim C5. When the registry answers the tag-detail request with status 200 and a body
  that decodes to \<open>td\<close>, \<^verbatim>\<open>GetImageID\<close> returns the manifest digest if it is not
  empty, else the legacy image id if that is not empty, else an error; a leading
  \<^verbatim>\<open>sha256:\<close> is cut off the returned value, and a value without it is returned as it
  is.
\<close>

theorem GetImageID_digest_preference:
  assumes "url_Parse w (''repository/'' @ repo @ ''/tag/'' @ PathEscape w tag) = Inr rel"
    and "NewRequest_err w ''GET'' (ResolveReference w (BaseURL c) rel) = None"
    and "Do w (request_sent c ''GET'' (ResolveReference w (BaseURL c) rel)) = Inr resp"
    and "resp_StatusCode resp = 200"
    and "Decode_TagDetail w (resp_Body resp) TagDetail_zero = (td, None)"
  shows "GetImageID w c repo tag =
           (if ManifestDigest td \<noteq> ''''
            then (TrimPrefix (ManifestDigest td) ''sha256:'', None,
                  [HTTP (request_sent c ''GET'' (ResolveReference w (BaseURL c) rel))])
            else if ImageID td \<noteq> ''''
            then (TrimPrefix (ImageID td) ''sha256:'', None,
                  [HTTP (request_sent c ''GET'' (ResolveReference w (BaseURL c) rel))])
            else ('''',
                  Some (errorString
                    (''could not determine image digest for tag '' @ apos @ tag @ apos)),
                  [HTTP (request_sent c ''GET'' (ResolveReference w (BaseURL c) rel))]))
         \<and> TrimPrefix (''sha256:'' @ x) ''sha256:'' = x
         \<and> (\<not> HasPrefix y ''sha256:'' \<longrightarrow> TrimPrefix y ''sha256:'' = y)"
proof -
  have "doRequest w c ''GET'' (''repository/'' @ repo @ ''/tag/'' @ PathEscape w tag)
          (Decode_TagDetail w) (Some TagDetail_zero) =
        (Some td, None, [HTTP (request_sent c ''GET'' (ResolveReference w (BaseURL c) rel))])"
    by (subst request_sent_doRequest [OF assms(1-3)]) (simp add: assms(4,5))
  then have "GetImageID w c repo tag =
           (if ManifestDigest td \<noteq> ''''
            then (TrimPrefix (ManifestDigest td) ''sha256:'', None,
                  [HTTP (request_sent c ''GET'' (ResolveReference w (BaseURL c) rel))])
            else if ImageID td \<noteq> ''''
            then (TrimPrefix (ImageID td) ''sha256:'', None,
                  [HTTP (request_sent c ''GET'' (ResolveReference w (BaseURL c) rel))])
            else ('''',
                  Some (errorString
                    (''could not determine image digest for tag '' @ apos @ tag @ apos)),
                  [HTTP (request_sent c ''GET'' (ResolveReference w (BaseURL c) rel))]))"
    by (simp add: GetImageID_def Let_def)
  moreover have "TrimPrefix (''sha256:'' @ x) ''sha256:'' = x"
    by (rule TrimPrefix_append)
  moreover have "\<not> HasPrefix y ''sha256:'' \<longrightarrow> TrimPrefix y ''sha256:'' = y"
    by (simp add: TrimPrefix_unchanged)
  ultimately show ?thesis by blast
qed

text \<open>
  Witness for C5: a tag detail with a manifest digest, one with only the legacy id, and
  one with neither.
\<close>

theorem GetImageID_digest_preference_witness:
  "GetImageID (sample_world [(tag_url, response 200 ''200 OK'' ''manifest_digest=sha256:abc123'')])
     sample_client ''coreos/etcd'' ''v3.5.0''
   = (''abc123'', None, [HTTP \<lparr>Method = ''GET'', URL = tag_url, Header = [(''User-Agent'', userAgent)]\<rparr>])
   \<and> GetImageID (sample_world [(tag_url, response 200 ''200 OK'' ''docker_image_id=def456'')])
     sample_client ''coreos/etcd'' ''v3.5.0''
   = (''def456'', None, [HTTP \<lparr>Method = ''GET'', URL = tag_url, Header = [(''User-Agent'', userAgent)]\<rparr>])
   \<and> GetImageID (sample_world [(tag_url, response 200 ''200 OK'' ''{}'')])
     sample_client ''coreos/etcd'' ''v3.5.0''
   = ('''', Some (errorString (''could not determine image digest for tag '' @ apos @ ''v3.5.0'' @ apos)),
      [HTTP \<lparr>Method = ''GET'', URL = tag_url, Header = [(''User-Agent'', userAgent)]\<rparr>])"
proof -
  let ?rel = "''repository/coreos/etcd/tag/v3.5.0''"
  have u: "BaseURL sample_client @ ?rel = tag_url"
    by (simp add: sample_client_def tag_url_def)
  have a: "GetImageID (sample_world [(tag_url, response 200 ''200 OK'' ''manifest_digest=sha256:abc123'')])
     sample_client ''coreos/etcd'' ''v3.5.0''
   = (''abc123'', None, [HTTP \<lparr>Method = ''GET'', URL = tag_url, Header = [(''User-Agent'', userAgent)]\<rparr>])"
    using GetImageID_digest_preference
      [of "sample_world [(tag_url, response 200 ''200 OK'' ''manifest_digest=sha256:abc123'')]"
          "''coreos/etcd''" "''v3.5.0''" ?rel sample_client
          "\<lparr>resp_StatusCode = 200, resp_Status = ''200 OK'', resp_Body = ''manifest_digest=sha256:abc123'', resp_Chunk = 29\<rparr>"
          "TagDetail_zero\<lparr>ManifestDigest := ''sha256:abc123''\<rparr>"]
    by (simp add: sample_world_simps u sample_tag_request response_def sample_decode_tag_def
        HasPrefix_def TrimPrefix_def TagDetail_zero_def)
  have b: "GetImageID (sample_world [(tag_url, response 200 ''200 OK'' ''docker_image_id=def456'')])
     sample_client ''coreos/etcd'' ''v3.5.0''
   = (''def456'', None, [HTTP \<lparr>Method = ''GET'', URL = tag_url, Header = [(''User-Agent'', userAgent)]\<rparr>])"
    using GetImageID_digest_preference
      [of "sample_world [(tag_url, response 200 ''200 OK'' ''docker_image_id=def456'')]"
          "''coreos/etcd''" "''v3.5.0''" ?rel sample_client
          "\<lparr>resp_StatusCode = 200, resp_Status = ''200 OK'', resp_Body = ''docker_image_id=def456'', resp_Chunk = 22\<rparr>"
          "TagDetail_zero\<lparr>ImageID := ''def456''\<rparr>"]
    by (simp add: sample_world_simps u sample_tag_request response_def sample_decode_tag_def
        HasPrefix_def TrimPrefix_def TagDetail_zero_def)
  have c: "GetImageID (sample_world [(tag_url, response 200 ''200 OK'' ''{}'')])
     sample_client ''coreos/etcd'' ''v3.5.0''
   = ('''', Some (errorString (''could not determine image digest for tag '' @ apos @ ''v3.5.0'' @ apos)),
      [HTTP \<lparr>Method = ''GET'', URL = tag_url, Header = [(''User-Agent'', userAgent)]\<rparr>])"
    using GetImageID_digest_preference
      [of "sample_world [(tag_url, response 200 ''200 OK'' ''{}'')]"
          "''coreos/etcd''" "''v3.5.0''" ?rel sample_client
          "\<lparr>resp_StatusCode = 200, resp_Status = ''200 OK'', resp_Body = ''{}'', resp_Chunk = 2\<rparr>"
          "TagDetail_zero"]
    by (simp add: sample_world_simps u sample_tag_request response_def sample_decode_tag_def
        HasPrefix_def TrimPrefix_def TagDetail_zero_def)
  from a b c show ?thesis by blast
qed

text \<open>
  Claim C6. When the registry answers the security request with status 200 and a body
  that decodes to \<open>report\<close>, \<^verbatim>\<open>GetVulnerabilities\<close> returns that report and no error,
  whatever its status; a status other than \<^verbatim>\<open>scanned\<close> only adds a warning to the
  log.
\<close>

theorem GetVulnerabilities_status_is_data:
  assumes "url_Parse w (''repository/'' @ repo @ ''/image/'' @ imageDigest
                          @ ''/security?vulnerabilities=true'') = Inr rel"
    and "NewRequest_err w ''GET'' (ResolveReference w (BaseURL c) rel) = None"
    and "Do w (request_sent c ''GET'' (ResolveReference w (BaseURL c) rel)) = Inr resp"
    and "resp_StatusCode resp = 200"
    and "Decode_SecurityReport w (resp_Body resp) SecurityReport_zero = (report, None)"
  shows "GetVulnerabilities w c repo imageDigest =
           (Some report, None,
            HTTP (request_sent c ''GET'' (ResolveReference w (BaseURL c) rel))
              # (if Status report \<noteq> ''scanned''
                 then [Log (''WARN: Scan status for '' @ repo @ ''/'' @ imageDigest
                              @ '' is '' @ apos @ Status report @ apos
                              @ ''. Vulnerability data may be incomplete or unavailable.'')]
                 else []))"
proof -
  have "doRequest w c ''GET'' (''repository/'' @ repo @ ''/image/'' @ imageDigest
                          @ ''/security?vulnerabilities=true'')
          (Decode_SecurityReport w) (Some SecurityReport_zero) =
        (Some report, None, [HTTP (request_sent c ''GET'' (ResolveReference w (BaseURL c) rel))])"
    by (subst request_sent_doRequest [OF assms(1-3)]) (simp add: assms(4,5))
  then show ?thesis
    by (simp add: GetVulnerabilities_def Let_def)
qed

text \<open>Witness for C6: a report whose status is \<^verbatim>\<open>queued\<close>.\<close>

theorem GetVulnerabilities_status_is_data_witness:
  "GetVulnerabilities (sample_world [(sec_url, response 200 ''200 OK'' ''status=queued'')])
     sample_client ''coreos/etcd'' ''abc123''
   = (Some (SecurityReport_zero\<lparr>Status := ''queued''\<rparr>), None,
      [HTTP \<lparr>Method = ''GET'', URL = sec_url, Header = [(''User-Agent'', userAgent)]\<rparr>,
       Log (''WARN: Scan status for coreos/etcd/abc123 is '' @ apos @ ''queued'' @ apos
              @ ''. Vulnerability data may be incomplete or unavailable.'')])"
proof -
  have u: "BaseURL sample_client
             @ ''repository/coreos/etcd/image/abc123/security?vulnerabilities=true'' = sec_url"
    by (simp add: sample_client_def sec_url_def)
  show ?thesis
    using GetVulnerabilities_status_is_data
      [of "sample_world [(sec_url, response 200 ''200 OK'' ''status=queued'')]"
          "''coreos/etcd''" "''abc123''"
          "''repository/coreos/etcd/image/abc123/security?vulnerabilities=true''" sample_client
          "\<lparr>resp_StatusCode = 200, resp_Status = ''200 OK'', resp_Body = ''status=queued'',
            resp_Chunk = 13\<rparr>"
          "SecurityReport_zero\<lparr>Status := ''queued''\<rparr>"]
    by (simp add: sample_world_simps u sample_sec_request response_def sample_decode_report_def
        HasPrefix_def TrimPrefix_def)
qed

text \<open>
  Claim C10. The result of \<^verbatim>\<open>processImage\<close> names the reference it was given and
  holds either a report or a non-empty error, never both and never neither;
  \<^verbatim>\<open>GetVulnerabilities\<close> returns a report exactly when it returns no error, so the
  branch of \<^verbatim>\<open>processImage\<close> that attaches a report next to an error is never taken.
\<close>

theorem processImage_report_xor_error:
  "ImageURL (fst (processImage w c imageURL)) = imageURL
   \<and> (Report (fst (processImage w c imageURL)) \<noteq> None)
       = (Error (fst (processImage w c imageURL)) = '''')
   \<and> (fst (GetVulnerabilities w c repo imageDigest) = None)
       = (fst (snd (GetVulnerabilities w c repo imageDigest)) \<noteq> None)"
proof -
  have "ImageURL (fst (processImage w c imageURL)) = imageURL"
    by (simp add: processImage_def Let_def split: prod.splits option.splits)
  moreover have "(Report (fst (processImage w c imageURL)) \<noteq> None)
       = (Error (fst (processImage w c imageURL)) = '''')"
  proof -
    obtain r t pe where p: "parseImageURL imageURL = (r, t, pe)"
      by (cases "parseImageURL imageURL") auto
    obtain d de e where g: "GetImageID w c r t = (d, de, e)"
      by (cases "GetImageID w c r t") auto
    obtain r' ve e' where v: "GetVulnerabilities w c r d = (r', ve, e')"
      by (cases "GetVulnerabilities w c r d") auto
    have x: "(r' = None) = (ve \<noteq> None)"
      using GetVulnerabilities_report_xor_error [of w c r d] v by simp
    show ?thesis
      using p g v x
      by (cases pe; cases de; cases ve) (auto simp: processImage_def Let_def)
  qed
  moreover note GetVulnerabilities_report_xor_error [of w c repo imageDigest]
  ultimately show ?thesis by blast
qed

section \<open>Properties of the worker pool\<close>

lemma main_stepE:
  assumes "main_step b s = Some s'"
  obtains
    (spawn) "main s = StartWorkers" "int (length (workers s)) < numWorkers b"
      "s' = s\<lparr>workers := workers s @ [Receiving]\<rparr>"
  | (spawned) "main s = StartWorkers" "\<not> int (length (workers s)) < numWorkers b"
      "s' = s\<lparr>main := SendJobs\<rparr>"
  | (send) "main s = SendJobs" "sent s < length (imageURLs b)"
      "length (jobs s) < length (imageURLs b)"
      "s' = s\<lparr>jobs := jobs s @ [(sent s, imageURLs b ! sent s)], sent := Suc (sent s)\<rparr>"
  | (all_sent) "main s = SendJobs" "\<not> sent s < length (imageURLs b)"
      "s' = s\<lparr>main := CloseJobs\<rparr>"
  | (close) "main s = CloseJobs" "s' = s\<lparr>closed := True, main := StartCollector\<rparr>"
  | (collect) "main s = StartCollector"
      "s' = s\<lparr>collector := Collecting 0, main := WaitWorkers\<rparr>"
  | (workers_done) "main s = WaitWorkers" "list_all (\<lambda>w. w = Exited) (workers s)"
      "s' = s\<lparr>main := WaitCollector\<rparr>"
  | (return) "main s = WaitCollector" "collector s = Finished" "s' = s\<lparr>main := Returned\<rparr>"
  using assms by (cases "main s") (auto simp: main_step_def split: if_splits)

lemma worker_stepE:
  assumes "worker_step b k s = Some s'"
  obtains
    (receive) i imageURL rest where "k < length (workers s)" "workers s ! k = Receiving"
      "jobs s = (i, imageURL) # rest"
      "s' = s\<lparr>jobs := rest, workers := (workers s)[k := Processing i imageURL]\<rparr>"
  | (exit) "k < length (workers s)" "workers s ! k = Receiving" "jobs s = []" "closed s"
      "s' = s\<lparr>workers := (workers s)[k := Exited]\<rparr>"
  | (process) i imageURL where "k < length (workers s)" "workers s ! k = Processing i imageURL"
      "s' = s\<lparr>workers := (workers s)
               [k := Delivering (fst (processImage (remote b i) (quayClient b) imageURL))]\<rparr>"
  | (deliver) result where "k < length (workers s)" "workers s ! k = Delivering result"
      "length (results s) < length (imageURLs b)"
      "s' = s\<lparr>results := results s @ [result], workers := (workers s)[k := Receiving]\<rparr>"
proof -
  from assms have k: "k < length (workers s)"
    by (simp add: worker_step_def split: if_splits)
  show ?thesis
  proof (cases "workers s ! k")
    case Receiving
    with assms k receive exit show ?thesis
      by (cases "jobs s") (auto simp: worker_step_def split: if_splits)
  next
    case (Processing i imageURL)
    with assms k process show ?thesis by (auto simp: worker_step_def)
  next
    case (Delivering result)
    with assms k deliver show ?thesis by (auto simp: worker_step_def split: if_splits)
  next
    case Exited
    with assms k show ?thesis by (simp add: worker_step_def)
  qed
qed

lemma collector_stepE:
  assumes "collector_step b s = Some s'"
  obtains
    (store) i result rest where "collector s = Collecting i" "i < length (imageURLs b)"
      "results s = result # rest"
      "s' = s\<lparr>results := rest, allResults := (allResults s)(ImageURL result \<mapsto> result),
               collector := Collecting (Suc i)\<rparr>"
  | (finish) i where "collector s = Collecting i" "\<not> i < length (imageURLs b)"
      "s' = s\<lparr>collector := Finished\<rparr>"
  using assms
  by (cases "collector s"; cases "results s")
     (auto simp: collector_step_def split: if_splits)

lemma sum_list_update:
  "k < length xs \<Longrightarrow>
     sum_list (map f (xs[k := y])) + f (xs ! k) = sum_list (map f xs) + (f y :: nat)"
proof (induction xs arbitrary: k)
  case Nil
  then show ?case by simp
next
  case (Cons x xs)
  then show ?case by (cases k) auto
qed

lemma set_update_cases:
  "x \<in> set (xs[k := y]) \<Longrightarrow> x = y \<or> x \<in> set xs"
  using set_update_subset_insert [of xs k y] by auto

lemma set_update_keeps:
  "k < length xs \<Longrightarrow> x \<in> set xs \<Longrightarrow> x = xs ! k \<or> x \<in> set (xs[k := y])"
  by (metis in_set_conv_nth length_list_update nth_list_update_neq)

lemma ctrl_start: "ctrl b start"
  by (simp add: ctrl_def start_def)

lemma count_start: "count b start"
  by (simp add: count_def start_def)

lemma ctrl_main:
  assumes "ctrl b s" and "main_step b s = Some s'"
  shows "ctrl b s'"
  using assms(2)
proof (cases rule: main_stepE)
  case spawn
  with assms(1) show ?thesis by (auto simp: ctrl_def)
next
  case spawned
  with assms(1) show ?thesis by (auto simp: ctrl_def)
next
  case send
  with assms(1) show ?thesis by (auto simp: ctrl_def)
next
  case all_sent
  with assms(1) show ?thesis by (auto simp: ctrl_def)
next
  case close
  with assms(1) show ?thesis by (auto simp: ctrl_def)
next
  case collect
  with assms(1) show ?thesis by (auto simp: ctrl_def)
next
  case workers_done
  with assms(1) show ?thesis by (auto simp: ctrl_def)
next
  case return
  with assms(1) show ?thesis by (auto simp: ctrl_def)
qed

lemma still_working:
  assumes "ctrl b s" and "k < length (workers s)" and "workers s ! k \<noteq> Exited"
  shows "main s \<noteq> WaitCollector \<and> main s \<noteq> Returned"
proof -
  have "\<not> list_all (\<lambda>w. w = Exited) (workers s)"
    using assms(2,3) by (auto simp: list_all_length)
  with assms(1) show ?thesis
    by (cases "main s") (auto simp: ctrl_def)
qed

lemma ctrl_worker:
  assumes "ctrl b s" and "worker_step b k s = Some s'"
  shows "ctrl b s'"
  using assms(2)
proof (cases rule: worker_stepE)
  case (receive i imageURL rest)
  have "Exited \<notin> set (workers s)" using assms(1) receive(3) by (auto simp: ctrl_def)
  then have e: "Exited \<notin> set ((workers s)[k := Processing i imageURL])"
    by (auto dest: set_update_cases)
  have "main s \<noteq> WaitCollector \<and> main s \<noteq> Returned"
    using still_working [OF assms(1) receive(1)] receive(2) by simp
  with assms(1) receive e show ?thesis
    by (cases "main s") (auto simp: ctrl_def)
next
  case exit
  have m: "main s \<noteq> WaitCollector \<and> main s \<noteq> Returned"
    using still_working [OF assms(1) exit(1)] exit(2) by simp
  with assms(1) exit show ?thesis
    by (cases "main s") (auto simp: ctrl_def)
next
  case (process i imageURL)
  have m: "main s \<noteq> WaitCollector \<and> main s \<noteq> Returned"
    using still_working [OF assms(1) process(1)] process(2) by simp
  have "Exited \<in> set ((workers s)[k := Delivering (fst (processImage (remote b i) (quayClient b) imageURL))])
          \<Longrightarrow> Exited \<in> set (workers s)"
    by (auto dest: set_update_cases)
  with assms(1) process m show ?thesis
    by (cases "main s") (auto simp: ctrl_def)
next
  case (deliver result)
  have m: "main s \<noteq> WaitCollector \<and> main s \<noteq> Returned"
    using still_working [OF assms(1) deliver(1)] deliver(2) by simp
  have "Exited \<in> set ((workers s)[k := Receiving]) \<Longrightarrow> Exited \<in> set (workers s)"
    by (auto dest: set_update_cases)
  with assms(1) deliver m show ?thesis
    by (cases "main s") (auto simp: ctrl_def)
qed

lemma ctrl_collector:
  assumes "ctrl b s" and "collector_step b s = Some s'"
  shows "ctrl b s'"
  using assms(2)
proof (cases rule: collector_stepE)
  case (store i result rest)
  with assms(1) show ?thesis by (cases "main s") (auto simp: ctrl_def)
next
  case (finish i)
  with assms(1) show ?thesis by (cases "main s") (auto simp: ctrl_def)
qed

lemma ctrl_step: "ctrl b s \<Longrightarrow> step b t s = Some s' \<Longrightarrow> ctrl b s'"
  by (cases t) (auto simp: step_def intro: ctrl_main ctrl_worker ctrl_collector)

lemma processImage_ImageURL: "ImageURL (fst (processImage w c imageURL)) = imageURL"
  by (simp add: processImage_def Let_def split: prod.splits option.splits)

lemma task_ImageURL: "ImageURL (task b i) = imageURLs b ! i"
  by (simp add: task_def processImage_ImageURL)

lemma count_main:
  assumes "ctrl b s" and "count b s" and "main_step b s = Some s'"
  shows "count b s'"
  using assms(3)
proof (cases rule: main_stepE)
  case collect
  with assms(1,2) show ?thesis by (simp add: count_def ctrl_def)
qed (use assms(2) in \<open>simp_all add: count_def\<close>)

lemma count_worker:
  assumes "count b s" and "worker_step b k s = Some s'"
  shows "count b s'"
  using assms(2)
proof (cases rule: worker_stepE)
  case (receive i imageURL rest)
  with assms(1) sum_list_update [OF receive(1), of busy "Processing i imageURL"]
  show ?thesis by (simp add: count_def)
next
  case exit
  with assms(1) sum_list_update [OF exit(1), of busy Exited]
  show ?thesis by (simp add: count_def)
next
  case (process i imageURL)
  with assms(1) sum_list_update [OF process(1), of busy
      "Delivering (fst (processImage (remote b i) (quayClient b) imageURL))"]
  show ?thesis by (simp add: count_def)
next
  case (deliver result)
  with assms(1) sum_list_update [OF deliver(1), of busy Receiving]
  show ?thesis by (simp add: count_def)
qed

lemma count_collector:
  assumes "ctrl b s" and "count b s" and "collector_step b s = Some s'"
  shows "count b s'"
  using assms(3)
proof (cases rule: collector_stepE)
  case (store i result rest)
  with assms(2) show ?thesis by (simp add: count_def)
next
  case (finish i)
  with assms(1) have "i = length (imageURLs b)" by (auto simp: ctrl_def)
  with assms(2) finish show ?thesis by (simp add: count_def)
qed

lemma count_step:
  assumes "ctrl b s" and "count b s" and "step b t s = Some s'"
  shows "count b s'"
proof (cases t)
  case Main
  with assms show ?thesis by (auto simp: step_def elim: count_main)
next
  case (Worker k)
  with assms show ?thesis by (auto simp: step_def elim: count_worker)
next
  case Collector
  with assms show ?thesis by (auto simp: step_def elim: count_collector)
qed

lemma result_ok_mono:
  assumes "result_ok b n r" and "n \<le> m"
  shows "result_ok b m r"
proof -
  from assms(1) obtain i where "i < n" and r: "r = task b i"
    unfolding result_ok_def by blast
  with assms(2) have "i < m" by simp
  with r show ?thesis unfolding result_ok_def by blast
qed

lemma job_ok_mono: "job_ok b n j \<Longrightarrow> n \<le> m \<Longrightarrow> job_ok b m j"
  by (auto simp: job_ok_def)

lemma worker_ok_mono: "worker_ok b n w \<Longrightarrow> n \<le> m \<Longrightarrow> worker_ok b m w"
  by (cases w) (auto intro: job_ok_mono result_ok_mono)

lemma list_all_update: "list_all P xs \<Longrightarrow> P y \<Longrightarrow> list_all P (xs[k := y])"
  by (auto simp: list_all_iff dest: set_update_cases)

lemma list_all_weaken: "list_all P xs \<Longrightarrow> (\<And>x. P x \<Longrightarrow> Q x) \<Longrightarrow> list_all Q xs"
  by (auto simp: list_all_iff)

lemma content_start: "content b start"
  by (simp add: content_def start_def)

lemma cover_start: "cover b start"
  by (simp add: cover_def start_def)

lemma content_main:
  assumes "content b s" and "main_step b s = Some s'"
  shows "content b s'"
  using assms(2)
proof (cases rule: main_stepE)
  case send
  have le: "sent s \<le> Suc (sent s)" by simp
  have "list_all (job_ok b (Suc (sent s))) (jobs s)"
    using assms(1) by (auto simp: content_def intro: list_all_weaken job_ok_mono [OF _ le])
  moreover have "job_ok b (Suc (sent s)) (sent s, imageURLs b ! sent s)"
    by (simp add: job_ok_def)
  moreover have "list_all (worker_ok b (Suc (sent s))) (workers s)"
    using assms(1) by (auto simp: content_def intro: list_all_weaken worker_ok_mono [OF _ le])
  moreover have "list_all (result_ok b (Suc (sent s))) (results s)"
    using assms(1) by (auto simp: content_def intro: list_all_weaken result_ok_mono [OF _ le])
  moreover have "\<forall>u r. allResults s u = Some r \<longrightarrow> u = ImageURL r \<and> result_ok b (Suc (sent s)) r"
    using assms(1) by (auto simp: content_def intro: result_ok_mono [OF _ le])
  ultimately show ?thesis using send by (simp add: content_def)
qed (use assms(1) in \<open>simp_all add: content_def\<close>)

lemma content_worker:
  assumes "content b s" and "worker_step b k s = Some s'"
  shows "content b s'"
  using assms(2)
proof (cases rule: worker_stepE)
  case (receive i imageURL rest)
  with assms(1) have "job_ok b (sent s) (i, imageURL)" by (simp add: content_def)
  then have "worker_ok b (sent s) (Processing i imageURL)" by simp
  with assms(1) receive show ?thesis by (simp add: content_def list_all_update)
next
  case exit
  with assms(1) show ?thesis by (simp add: content_def list_all_update)
next
  case (process i imageURL)
  have "worker_ok b (sent s) (workers s ! k)"
    using assms(1) process(1) by (simp add: content_def list_all_length)
  then have j: "i < sent s" "imageURL = imageURLs b ! i"
    using process(2) by (simp_all add: job_ok_def)
  then have "result_ok b (sent s) (fst (processImage (remote b i) (quayClient b) imageURL))"
    unfolding result_ok_def task_def by blast
  then have "worker_ok b (sent s)
               (Delivering (fst (processImage (remote b i) (quayClient b) imageURL)))"
    by simp
  with assms(1) process show ?thesis by (simp add: content_def list_all_update)
next
  case (deliver result)
  have "worker_ok b (sent s) (workers s ! k)"
    using assms(1) deliver(1) by (simp add: content_def list_all_length)
  then have "result_ok b (sent s) result" using deliver(2) by simp
  with assms(1) deliver show ?thesis by (simp add: content_def list_all_update)
qed

lemma content_collector:
  assumes "content b s" and "collector_step b s = Some s'"
  shows "content b s'"
  using assms(2)
proof (cases rule: collector_stepE)
  case (store i result rest)
  with assms(1) show ?thesis by (auto simp: content_def)
next
  case (finish i)
  with assms(1) show ?thesis by (simp add: content_def)
qed

lemma content_step:
  assumes "content b s" and "step b t s = Some s'"
  shows "content b s'"
proof (cases t)
  case Main
  with assms show ?thesis by (auto simp: step_def elim: content_main)
next
  case (Worker k)
  with assms show ?thesis by (auto simp: step_def elim: content_worker)
next
  case Collector
  with assms show ?thesis by (auto simp: step_def elim: content_collector)
qed

lemma holds_update:
  assumes "k < length ws"
  shows "(\<Union>w \<in> set ws. holds w) \<subseteq> holds (ws ! k) \<union> (\<Union>w \<in> set (ws[k := y]). holds w)"
proof
  fix u
  assume "u \<in> (\<Union>w \<in> set ws. holds w)"
  then obtain w where w: "w \<in> set ws" and u: "u \<in> holds w" by blast
  from set_update_keeps [OF assms w, of y]
  show "u \<in> holds (ws ! k) \<union> (\<Union>w \<in> set (ws[k := y]). holds w)"
    using u by blast
qed

lemma holds_update_same:
  assumes "k < length ws" and "holds (ws ! k) \<subseteq> holds y"
  shows "(\<Union>w \<in> set ws. holds w) \<subseteq> (\<Union>w \<in> set (ws[k := y]). holds w)"
proof -
  have "y \<in> set (ws[k := y])" using assms(1) by (rule set_update_memI)
  then have "holds y \<subseteq> (\<Union>w \<in> set (ws[k := y]). holds w)" by blast
  with holds_update [OF assms(1), of y] assms(2) show ?thesis by blast
qed

lemma cover_grows:
  assumes "cover b s" and "sent s' = sent s"
    and "pending s \<union> dom (allResults s) \<subseteq> pending s' \<union> dom (allResults s')"
  shows "cover b s'"
  using assms unfolding cover_def by (metis subsetD)

lemma cover_main:
  assumes "cover b s" and "main_step b s = Some s'"
  shows "cover b s'"
  using assms(2)
proof (cases rule: main_stepE)
  case send
  with assms(1) show ?thesis
    by (auto simp: cover_def pending_def less_Suc_eq)
qed (use assms(1) in \<open>simp_all add: cover_def pending_def\<close>)

lemma cover_worker:
  assumes "cover b s" and "worker_step b k s = Some s'"
  shows "cover b s'"
  using assms(2)
proof (cases rule: worker_stepE)
  case (receive i imageURL rest)
  have h: "holds (workers s ! k) \<subseteq> holds (Processing i imageURL)"
    by (simp add: receive(2))
  note holds_update_same [OF receive(1) h]
  moreover have "imageURL \<in> (\<Union>w \<in> set ((workers s)[k := Processing i imageURL]). holds w)"
    using set_update_memI [OF receive(1), of "Processing i imageURL"] by force
  ultimately have sub: "pending s \<union> dom (allResults s) \<subseteq> pending s' \<union> dom (allResults s')"
    using receive(3,4) by (auto simp: pending_def)
  have "sent s' = sent s" by (simp add: receive(4))
  with assms(1) show ?thesis using sub by (rule cover_grows)
next
  case exit
  have h: "holds (workers s ! k) \<subseteq> holds Exited" by (simp add: exit(2))
  have sub: "pending s \<union> dom (allResults s) \<subseteq> pending s' \<union> dom (allResults s')"
    using holds_update_same [OF exit(1) h] exit(5) by (auto simp: pending_def)
  have "sent s' = sent s" by (simp add: exit(5))
  with assms(1) show ?thesis using sub by (rule cover_grows)
next
  case (process i imageURL)
  have h: "holds (workers s ! k)
             \<subseteq> holds (Delivering (fst (processImage (remote b i) (quayClient b) imageURL)))"
    by (simp add: process(2) processImage_ImageURL)
  have sub: "pending s \<union> dom (allResults s) \<subseteq> pending s' \<union> dom (allResults s')"
    using holds_update_same [OF process(1) h] process(3) by (auto simp: pending_def)
  have "sent s' = sent s" by (simp add: process(3))
  with assms(1) show ?thesis using sub by (rule cover_grows)
next
  case (deliver result)
  have sub: "pending s \<union> dom (allResults s) \<subseteq> pending s' \<union> dom (allResults s')"
    using holds_update [OF deliver(1), of Receiving] deliver(2,4) by (auto simp: pending_def)
  have "sent s' = sent s" by (simp add: deliver(4))
  with assms(1) show ?thesis using sub by (rule cover_grows)
qed

lemma cover_collector:
  assumes "cover b s" and "collector_step b s = Some s'"
  shows "cover b s'"
  using assms(2)
proof (cases rule: collector_stepE)
  case (store i result rest)
  then have sub: "pending s \<union> dom (allResults s) \<subseteq> pending s' \<union> dom (allResults s')"
    by (auto simp: pending_def)
  have "sent s' = sent s" by (simp add: store(4))
  with assms(1) show ?thesis using sub by (rule cover_grows)
next
  case (finish i)
  with assms(1) show ?thesis by (simp add: cover_def pending_def)
qed

lemma cover_step:
  assumes "cover b s" and "step b t s = Some s'"
  shows "cover b s'"
proof (cases t)
  case Main
  with assms show ?thesis by (auto simp: step_def elim: cover_main)
next
  case (Worker k)
  with assms show ?thesis by (auto simp: step_def elim: cover_worker)
next
  case Collector
  with assms show ?thesis by (auto simp: step_def elim: cover_collector)
qed

lemma inv_start: "inv b start"
  by (simp add: inv_def ctrl_start count_start content_start cover_start)

lemma inv_step:
  assumes "inv b s" and "step b t s = Some s'"
  shows "inv b s'"
  using assms ctrl_step [of b s t s'] count_step [of b s t s'] content_step [of b s t s']
    cover_step [of b s t s']
  by (simp add: inv_def)

lemma inv_run: "inv b s \<Longrightarrow> run b ts s = Some s' \<Longrightarrow> inv b s'"
proof (induction ts arbitrary: s)
  case Nil
  then show ?case by simp
next
  case (Cons t ts)
  from Cons.prems(2) obtain s1 where s1: "step b t s = Some s1" and r: "run b ts s1 = Some s'"
    by (auto split: option.splits)
  from Cons.prems(1) s1 have "inv b s1" by (rule inv_step)
  then show ?case using r by (rule Cons.IH)
qed

lemma run_append:
  "run b (ts @ us) s = (case run b ts s of None \<Rightarrow> None | Some s' \<Rightarrow> run b us s')"
  by (induction ts arbitrary: s) (auto split: option.splits)

lemma all_exited_holds:
  "list_all (\<lambda>w. w = Exited) ws \<Longrightarrow> (\<Union>w \<in> set ws. holds w) = {}"
  by (auto simp: list_all_iff)

lemma returned_results:
  assumes "inv b s" and "main s = Returned"
  shows "dom (allResults s) = set (imageURLs b)"
    and "\<And>u r. allResults s u = Some r \<Longrightarrow>
           \<exists>i < length (imageURLs b). imageURLs b ! i = u \<and> r = task b i"
proof -
  from assms have c: "sent s = length (imageURLs b)" "collector s = Finished"
    "list_all (\<lambda>w. w = Exited) (workers s)"
    by (simp_all add: inv_def ctrl_def)
  from assms(1) have "count b s" by (simp add: inv_def)
  with c have e: "jobs s = []" "results s = []" by (simp_all add: count_def)
  have p: "pending s = {}"
    using e all_exited_holds [OF c(3)] by (simp add: pending_def)
  show r: "\<exists>i < length (imageURLs b). imageURLs b ! i = u \<and> r = task b i"
    if "allResults s u = Some r" for u r
  proof -
    from assms(1) that have "u = ImageURL r" and "result_ok b (sent s) r"
      by (auto simp: inv_def content_def)
    then obtain i where "i < length (imageURLs b)" and "r = task b i" and "u = ImageURL r"
      using c(1) by (auto simp: result_ok_def)
    then show ?thesis using task_ImageURL [of b i] by auto
  qed
  show "dom (allResults s) = set (imageURLs b)"
  proof
    show "dom (allResults s) \<subseteq> set (imageURLs b)"
    proof
      fix u assume "u \<in> dom (allResults s)"
      then obtain r where "allResults s u = Some r" by blast
      from r [OF this] show "u \<in> set (imageURLs b)" by auto
    qed
    show "set (imageURLs b) \<subseteq> dom (allResults s)"
    proof
      fix u assume "u \<in> set (imageURLs b)"
      then obtain i where "i < length (imageURLs b)" and "imageURLs b ! i = u"
        by (auto simp: in_set_conv_nth)
      moreover from assms(1) have "cover b s" by (simp add: inv_def)
      ultimately show "u \<in> dom (allResults s)"
        using c(1) p unfolding cover_def by auto
    qed
  qed
qed

lemma potential_main:
  assumes "main_step b s = Some s'"
  shows "potential b s' < potential b s"
  using assms
proof (cases rule: main_stepE)
  case spawn
  then have "length (workers s) < nat (numWorkers b)" by simp
  with spawn show ?thesis by (simp add: potential_def)
next
  case send
  then show ?thesis by (simp add: potential_def)
qed (simp_all add: potential_def)

lemma potential_worker:
  assumes "worker_step b k s = Some s'"
  shows "potential b s' < potential b s"
  using assms
proof (cases rule: worker_stepE)
  case (receive i imageURL rest)
  with sum_list_update [OF receive(1), of effort "Processing i imageURL"]
  show ?thesis by (simp add: potential_def)
next
  case exit
  with sum_list_update [OF exit(1), of effort Exited]
  show ?thesis by (simp add: potential_def)
next
  case (process i imageURL)
  with sum_list_update [OF process(1), of effort
      "Delivering (fst (processImage (remote b i) (quayClient b) imageURL))"]
  show ?thesis by (simp add: potential_def)
next
  case (deliver result)
  with sum_list_update [OF deliver(1), of effort Receiving]
  show ?thesis by (simp add: potential_def)
qed

lemma potential_collector:
  assumes "collector_step b s = Some s'"
  shows "potential b s' < potential b s"
  using assms
  by (cases rule: collector_stepE) (simp_all add: potential_def)

lemma potential_step:
  assumes "step b t s = Some s'"
  shows "potential b s' < potential b s"
proof (cases t)
  case Main
  with assms show ?thesis by (auto simp: step_def elim: potential_main)
next
  case (Worker k)
  with assms show ?thesis by (auto simp: step_def elim: potential_worker)
next
  case Collector
  with assms show ?thesis by (auto simp: step_def elim: potential_collector)
qed

lemma run_bound: "run b ts s = Some s' \<Longrightarrow> length ts + potential b s' \<le> potential b s"
proof (induction ts arbitrary: s)
  case Nil
  then show ?case by simp
next
  case (Cons t ts)
  from Cons.prems obtain s1 where s1: "step b t s = Some s1" and r: "run b ts s1 = Some s'"
    by (auto split: option.splits)
  from Cons.IH [OF r] potential_step [OF s1] show ?case by simp
qed

lemma potential_start:
  "potential b start = 8 + 2 * nat (numWorkers b) + 5 * length (imageURLs b)"
  by (simp add: potential_def start_def)

lemma busy_le_sum: "k < length ws \<Longrightarrow> busy (ws ! k) \<le> sum_list (map busy ws)"
  by (simp add: member_le_sum_list)

lemma all_exited_busy:
  "list_all (\<lambda>w. w = Exited) ws \<Longrightarrow> sum_list (map busy ws) = 0"
  by (induction ws) auto

lemma progress:
  assumes "inv b s" and "0 < numWorkers b" and "main s \<noteq> Returned"
  shows "\<exists>t. step b t s \<noteq> None"
proof -
  from assms(1) have c: "ctrl b s" and n: "count b s" by (simp_all add: inv_def)
  show ?thesis
  proof (cases "main s")
    case StartWorkers
    then have "step b Main s \<noteq> None" by (simp add: step_def main_step_def)
    then show ?thesis ..
  next
    case SendJobs
    have "length (jobs s) \<le> sent s" using n by (simp add: count_def)
    with SendJobs have "step b Main s \<noteq> None" by (simp add: step_def main_step_def)
    then show ?thesis ..
  next
    case CloseJobs
    then have "step b Main s \<noteq> None" by (simp add: step_def main_step_def)
    then show ?thesis ..
  next
    case StartCollector
    then have "step b Main s \<noteq> None" by (simp add: step_def main_step_def)
    then show ?thesis ..
  next
    case WaitWorkers
    show ?thesis
    proof (cases "list_all (\<lambda>w. w = Exited) (workers s)")
      case True
      with WaitWorkers have "step b Main s \<noteq> None" by (simp add: step_def main_step_def)
      then show ?thesis ..
    next
      case False
      then obtain k where k: "k < length (workers s)" and w: "workers s ! k \<noteq> Exited"
        by (auto simp: list_all_length)
      from c WaitWorkers have cl: "closed s" and se: "sent s = length (imageURLs b)"
        by (simp_all add: ctrl_def)
      have "worker_step b k s \<noteq> None"
      proof (cases "workers s ! k")
        case Receiving
        with k cl show ?thesis
          by (cases "jobs s") (auto simp: worker_step_def)
      next
        case (Processing i imageURL)
        with k show ?thesis by (simp add: worker_step_def)
      next
        case (Delivering result)
        with busy_le_sum [OF k] have "1 \<le> sum_list (map busy (workers s))" by simp
        with n se have "length (results s) < length (imageURLs b)" by (simp add: count_def)
        with k Delivering show ?thesis by (simp add: worker_step_def)
      next
        case Exited
        with w show ?thesis by simp
      qed
      then have "step b (Worker k) s \<noteq> None" by (simp add: step_def)
      then show ?thesis ..
    qed
  next
    case WaitCollector
    with c have se: "sent s = length (imageURLs b)" and ns: "collector s \<noteq> NotStarted"
      and ex: "list_all (\<lambda>w. w = Exited) (workers s)"
      and nw: "numWorkers b \<le> int (length (workers s))"
      by (simp_all add: ctrl_def)
    show ?thesis
    proof (cases "collector s")
      case NotStarted
      with ns show ?thesis by simp
    next
      case (Collecting i)
      have "workers s \<noteq> []" using nw assms(2) by auto
      then have "Exited \<in> set (workers s)" using ex by (cases "workers s") auto
      with c have j: "jobs s = []" by (simp add: ctrl_def)
      have "collector_step b s \<noteq> None"
      proof (cases "i < length (imageURLs b)")
        case True
        with n se j Collecting all_exited_busy [OF ex] have "results s \<noteq> []"
          by (auto simp: count_def)
        with True Collecting show ?thesis
          by (cases "results s") (auto simp: collector_step_def)
      next
        case False
        with Collecting show ?thesis by (simp add: collector_step_def)
      qed
      then have "step b Collector s \<noteq> None" by (simp add: step_def)
      then show ?thesis ..
    next
      case Finished
      with WaitCollector have "step b Main s \<noteq> None" by (simp add: step_def main_step_def)
      then show ?thesis ..
    qed
  next
    case Returned
    with assms(3) show ?thesis by simp
  qed
qed

lemma can_return:
  assumes "0 < numWorkers b"
  shows "inv b s \<Longrightarrow> \<exists>ts s'. run b ts s = Some s' \<and> main s' = Returned"
proof (induction "potential b s" arbitrary: s rule: less_induct)
  case less
  show ?case
  proof (cases "main s = Returned")
    case True
    then have "run b [] s = Some s \<and> main s = Returned" by simp
    then show ?thesis by blast
  next
    case False
    from progress [OF less.prems assms False] obtain t s1 where s1: "step b t s = Some s1"
      by auto
    from less.prems s1 have "inv b s1" by (rule inv_step)
    with less.hyps [OF potential_step [OF s1]] obtain ts s' where
      "run b ts s1 = Some s'" and "main s' = Returned" by blast
    with s1 have "run b (t # ts) s = Some s' \<and> main s' = Returned" by simp
    then show ?thesis by blast
  qed
qed

lemmas eval_defs =
  processImage_def parseImageURL_def SplitN2_def GetImageID_def GetVulnerabilities_def
  doRequest_def NewRequest_def Header_Set_def Let_def Errorf_w_def sample_defs
  registry_up_def registry_down_def flannel_found_def flannel_scanned_def

lemma etcd_up: "fst (processImage registry_up sample_client etcd) = scanned etcd"
  by (simp add: eval_defs etcd_def scanned_def)


lemma flannel_up: "fst (processImage registry_up sample_client flannel) = scanned flannel"
  by (simp add: eval_defs flannel_def scanned_def)

lemma flannel_down: "fst (processImage registry_down sample_client flannel) = flannel_refused"
  by (simp add: eval_defs flannel_def flannel_refused_def)

lemmas run_defs =
  runWorkerPool_def step_def main_step_def worker_step_def collector_step_def start_def
















lemma etcd_not_flannel: "etcd \<noteq> flannel"
  by (simp add: etcd_def flannel_def)

lemma sample_ImageURL:
  "ImageURL (scanned u) = u" "ImageURL flannel_refused = flannel" "ImageURL etcd_refused = etcd"
  by (simp_all add: scanned_def flannel_refused_def etcd_refused_def)

lemma calm_run:
  "runWorkerPool calm_batch calm_schedule =
     Some [etcd \<mapsto> scanned etcd, flannel \<mapsto> scanned flannel]"
  by (simp add: run_defs calm_batch_def calm_schedule_def etcd_up flannel_up sample_ImageURL)

lemma outage_run:
  "runWorkerPool (calm_batch\<lparr>remote := outage\<rparr>) calm_schedule =
     Some [etcd \<mapsto> scanned etcd, flannel \<mapsto> flannel_refused]"
  by (simp add: run_defs calm_batch_def calm_schedule_def outage_def etcd_up flannel_down
      sample_ImageURL)


lemma report_xor_error:
  "(Report (fst (processImage w c imageURL)) \<noteq> None)
     = (Error (fst (processImage w c imageURL)) = '''')"
proof -
  obtain r t pe where p: "parseImageURL imageURL = (r, t, pe)"
    by (cases "parseImageURL imageURL") auto
  obtain d de e where g: "GetImageID w c r t = (d, de, e)"
    by (cases "GetImageID w c r t") auto
  obtain r' ve e' where v: "GetVulnerabilities w c r d = (r', ve, e')"
    by (cases "GetVulnerabilities w c r d") auto
  have x: "(r' = None) = (ve \<noteq> None)"
    using GetVulnerabilities_report_xor_error [of w c r d] v by simp
  show ?thesis
    using p g v x
    by (cases pe; cases de; cases ve) (auto simp: processImage_def Let_def)
qed

lemma pool_results:
  assumes "runWorkerPool b schedule = Some rs"
  shows "dom rs = set (imageURLs b)"
    and "\<And>u r. rs u = Some r \<Longrightarrow>
           \<exists>i < length (imageURLs b). imageURLs b ! i = u \<and> r = task b i"
proof -
  from assms obtain s where s: "run b schedule start = Some s" and m: "main s = Returned"
    and rs: "rs = allResults s"
    by (auto simp: runWorkerPool_def split: option.splits if_splits)
  have i: "inv b s" using inv_start s by (rule inv_run)
  show "dom rs = set (imageURLs b)" using returned_results(1) [OF i m] rs by simp
  show "\<exists>i < length (imageURLs b). imageURLs b ! i = u \<and> r = task b i" if "rs u = Some r" for u r
    using returned_results(2) [OF i m, of u r] that rs by simp
qed

lemma pool_returns:
  assumes "0 < numWorkers b"
  shows "\<exists>schedule rs. runWorkerPool b schedule = Some rs"
    and "\<And>schedule s. run b schedule start = Some s \<Longrightarrow>
           length schedule \<le> 8 + 2 * nat (numWorkers b) + 5 * length (imageURLs b)
           \<and> (main s \<noteq> Returned \<longrightarrow> (\<exists>t. step b t s \<noteq> None))"
proof -
  from can_return [OF assms inv_start] obtain ts s' where
    "run b ts start = Some s'" and "main s' = Returned" by blast
  then have "runWorkerPool b ts = Some (allResults s')" by (simp add: runWorkerPool_def)
  then show "\<exists>schedule rs. runWorkerPool b schedule = Some rs" by blast
  show "length schedule \<le> 8 + 2 * nat (numWorkers b) + 5 * length (imageURLs b)
           \<and> (main s \<noteq> Returned \<longrightarrow> (\<exists>t. step b t s \<noteq> None))"
    if r: "run b schedule start = Some s" for schedule s
  proof
    from run_bound [OF r] show
      "length schedule \<le> 8 + 2 * nat (numWorkers b) + 5 * length (imageURLs b)"
      by (simp add: potential_start)
    have "inv b s" using inv_start r by (rule inv_run)
    then show "main s \<noteq> Returned \<longrightarrow> (\<exists>t. step b t s \<noteq> None)"
      using progress [of b s] assms by blast
  qed
qed




lemma task_same_world:
  assumes "remote' i = remote b i"
  shows "task (b\<lparr>remote := remote'\<rparr>) i = task b i"
  using assms by (simp add: task_def)

text \<open>
  Claim C9. Let the world change for the tasks of one reference \<open>R\<close> only (the
  client fails for \<open>R\<close>). The batch is not aborted: the pool returns under every
  schedule as before. Compared with a run of the unchanged batch, the map returned has
  the same keys and so the same number of entries; under every other reference it
  holds a result of the unchanged batch, the very same entry when the submissions of
  that reference give one result; and the failure is in the entry of \<open>R\<close> itself,
  which names \<open>R\<close> and, when the tasks of \<open>R\<close> fail, holds an error and no
  report.
\<close>

theorem failure_isolation:
  assumes "0 < numWorkers b"
    and "\<forall>i < length (imageURLs b). imageURLs b ! i \<noteq> R \<longrightarrow> remote' i = remote b i"
  shows "(\<exists>schedule rs. runWorkerPool (b\<lparr>remote := remote'\<rparr>) schedule = Some rs)
     \<and> (\<forall>schedule s. run (b\<lparr>remote := remote'\<rparr>) schedule start = Some s \<longrightarrow>
           length schedule \<le> 8 + 2 * nat (numWorkers b) + 5 * length (imageURLs b)
           \<and> (main s \<noteq> Returned \<longrightarrow> (\<exists>t. step (b\<lparr>remote := remote'\<rparr>) t s \<noteq> None)))
     \<and> (\<forall>schedule schedule' rs rs'.
           runWorkerPool b schedule = Some rs
           \<and> runWorkerPool (b\<lparr>remote := remote'\<rparr>) schedule' = Some rs' \<longrightarrow>
           dom rs' = dom rs
           \<and> card (dom rs') = card (dom rs)
           \<and> (\<forall>u r. u \<noteq> R \<and> rs' u = Some r \<longrightarrow>
                 (\<exists>i < length (imageURLs b). imageURLs b ! i = u \<and> r = task b i))
           \<and> (\<forall>u. u \<noteq> R
                 \<and> (\<forall>i < length (imageURLs b). \<forall>j < length (imageURLs b).
                       imageURLs b ! i = u \<and> imageURLs b ! j = u \<longrightarrow> task b i = task b j) \<longrightarrow>
                 rs' u = rs u)
           \<and> (\<forall>r. rs' R = Some r \<longrightarrow>
                 ImageURL r = R
                 \<and> (\<exists>i < length (imageURLs b). imageURLs b ! i = R
                       \<and> r = task (b\<lparr>remote := remote'\<rparr>) i))
           \<and> ((\<forall>i < length (imageURLs b). imageURLs b ! i = R \<longrightarrow>
                   Error (task (b\<lparr>remote := remote'\<rparr>) i) \<noteq> '''') \<longrightarrow>
                (\<forall>r. rs' R = Some r \<longrightarrow> Error r \<noteq> '''' \<and> Report r = None)))"
proof -
  let ?b = "b\<lparr>remote := remote'\<rparr>"
  have p: "0 < numWorkers ?b" using assms(1) by simp
  have same: "task ?b i = task b i" if "i < length (imageURLs b)" "imageURLs b ! i \<noteq> R" for i
    using assms(2) that by (simp add: task_same_world)
  have a: "\<exists>schedule rs. runWorkerPool ?b schedule = Some rs"
    using p by (rule pool_returns(1))
  have b: "\<forall>schedule s. run ?b schedule start = Some s \<longrightarrow>
           length schedule \<le> 8 + 2 * nat (numWorkers b) + 5 * length (imageURLs b)
           \<and> (main s \<noteq> Returned \<longrightarrow> (\<exists>t. step ?b t s \<noteq> None))"
    using pool_returns(2) [OF p] by simp
  have c: "dom rs' = dom rs
           \<and> card (dom rs') = card (dom rs)
           \<and> (\<forall>u r. u \<noteq> R \<and> rs' u = Some r \<longrightarrow>
                 (\<exists>i < length (imageURLs b). imageURLs b ! i = u \<and> r = task b i))
           \<and> (\<forall>u. u \<noteq> R
                 \<and> (\<forall>i < length (imageURLs b). \<forall>j < length (imageURLs b).
                       imageURLs b ! i = u \<and> imageURLs b ! j = u \<longrightarrow> task b i = task b j) \<longrightarrow>
                 rs' u = rs u)
           \<and> (\<forall>r. rs' R = Some r \<longrightarrow>
                 ImageURL r = R
                 \<and> (\<exists>i < length (imageURLs b). imageURLs b ! i = R \<and> r = task ?b i))
           \<and> ((\<forall>i < length (imageURLs b). imageURLs b ! i = R \<longrightarrow>
                   Error (task ?b i) \<noteq> '''') \<longrightarrow>
                (\<forall>r. rs' R = Some r \<longrightarrow> Error r \<noteq> '''' \<and> Report r = None))"
    if rr: "runWorkerPool b schedule = Some rs
           \<and> runWorkerPool ?b schedule' = Some rs'"
    for schedule schedule' rs rs'
  proof -
    from rr have r: "runWorkerPool b schedule = Some rs"
      and r': "runWorkerPool ?b schedule' = Some rs'" by simp_all
    note d = pool_results(1) [OF r] and v = pool_results(2) [OF r]
    have d': "dom rs' = set (imageURLs b)" using pool_results(1) [OF r'] by simp
    have v': "\<exists>i < length (imageURLs b). imageURLs b ! i = u \<and> x = task ?b i"
      if "rs' u = Some x" for u x
      using pool_results(2) [OF r' that] by simp
    have c1: "dom rs' = dom rs" using d d' by simp
    have c3: "\<exists>i < length (imageURLs b). imageURLs b ! i = u \<and> x = task b i"
      if "u \<noteq> R" "rs' u = Some x" for u x
    proof -
      from v' [OF that(2)] obtain i where i: "i < length (imageURLs b)" "imageURLs b ! i = u"
        and x: "x = task ?b i" by blast
      with same [of i] that(1) have "x = task b i" by simp
      with i show ?thesis by blast
    qed
    have c4: "rs' u = rs u"
      if "u \<noteq> R" and eq: "\<forall>i < length (imageURLs b). \<forall>j < length (imageURLs b).
                       imageURLs b ! i = u \<and> imageURLs b ! j = u \<longrightarrow> task b i = task b j" for u
    proof (cases "u \<in> set (imageURLs b)")
      case True
      with d d' obtain x x' where x: "rs u = Some x" and x': "rs' u = Some x'" by blast
      from v [OF x] obtain i where i: "i < length (imageURLs b)" "imageURLs b ! i = u"
        "x = task b i" by blast
      from c3 [OF that(1) x'] obtain j where j: "j < length (imageURLs b)"
        "imageURLs b ! j = u" "x' = task b j" by blast
      from eq i j have "x = x'" by metis
      with x x' show ?thesis by simp
    next
      case False
      with d d' have "rs u = None" and "rs' u = None" by blast+
      then show ?thesis by simp
    qed
    have c5: "ImageURL x = R \<and> (\<exists>i < length (imageURLs b). imageURLs b ! i = R \<and> x = task ?b i)"
      if "rs' R = Some x" for x
    proof -
      from v' [OF that] obtain i where i: "i < length (imageURLs b)" "imageURLs b ! i = R"
        "x = task ?b i" by blast
      then have "ImageURL x = R" using task_ImageURL [of ?b i] by simp
      with i show ?thesis by blast
    qed
    have c6: "Error x \<noteq> '''' \<and> Report x = None"
      if f: "\<forall>i < length (imageURLs b). imageURLs b ! i = R \<longrightarrow> Error (task ?b i) \<noteq> ''''"
        and x: "rs' R = Some x" for x
    proof -
      from c5 [OF x] obtain i where i: "i < length (imageURLs b)" "imageURLs b ! i = R"
        "x = task ?b i" by blast
      with f have e: "Error x \<noteq> ''''" by simp
      moreover have "(Report x \<noteq> None) = (Error x = '''')"
        unfolding i(3) task_def by (rule report_xor_error)
      ultimately show ?thesis by simp
    qed
    show ?thesis
    proof (intro conjI allI impI)
      show "dom rs' = dom rs" by (rule c1)
      show "card (dom rs') = card (dom rs)" by (simp add: c1)
      show "\<exists>i < length (imageURLs b). imageURLs b ! i = u \<and> x = task b i"
        if "u \<noteq> R \<and> rs' u = Some x" for u x
      proof -
        from that have "u \<noteq> R" and "rs' u = Some x" by simp_all
        then show ?thesis by (rule c3)
      qed
      show "rs' u = rs u"
        if "u \<noteq> R
                 \<and> (\<forall>i < length (imageURLs b). \<forall>j < length (imageURLs b).
                       imageURLs b ! i = u \<and> imageURLs b ! j = u \<longrightarrow> task b i = task b j)" for u
      proof -
        from that have "u \<noteq> R" by (rule conjunct1)
        moreover from that have "\<forall>i < length (imageURLs b). \<forall>j < length (imageURLs b).
                       imageURLs b ! i = u \<and> imageURLs b ! j = u \<longrightarrow> task b i = task b j"
          by (rule conjunct2)
        ultimately show ?thesis by (rule c4)
      qed
      show "ImageURL x = R" if "rs' R = Some x" for x
        using c5 [OF that] by (elim conjE)
      show "\<exists>i < length (imageURLs b). imageURLs b ! i = R \<and> x = task ?b i"
        if "rs' R = Some x" for x
        using c5 [OF that] by (elim conjE)
      show "Error x \<noteq> ''''"
        if "\<forall>i < length (imageURLs b). imageURLs b ! i = R \<longrightarrow> Error (task ?b i) \<noteq> ''''"
          and "rs' R = Some x" for x
        using c6 [OF that] by (elim conjE)
      show "Report x = None"
        if "\<forall>i < length (imageURLs b). imageURLs b ! i = R \<longrightarrow> Error (task ?b i) \<noteq> ''''"
          and "rs' R = Some x" for x
        using c6 [OF that] by (elim conjE)
    qed
  qed
  show ?thesis
  proof (intro conjI)
    show "\<exists>schedule rs. runWorkerPool ?b schedule = Some rs" by (rule a)
    show "\<forall>schedule s. run ?b schedule start = Some s \<longrightarrow>
           length schedule \<le> 8 + 2 * nat (numWorkers b) + 5 * length (imageURLs b)
           \<and> (main s \<noteq> Returned \<longrightarrow> (\<exists>t. step ?b t s \<noteq> None))" by (rule b)
    show "\<forall>schedule schedule' rs rs'.
           runWorkerPool b schedule = Some rs
           \<and> runWorkerPool ?b schedule' = Some rs' \<longrightarrow>
           dom rs' = dom rs
           \<and> card (dom rs') = card (dom rs)
           \<and> (\<forall>u r. u \<noteq> R \<and> rs' u = Some r \<longrightarrow>
                 (\<exists>i < length (imageURLs b). imageURLs b ! i = u \<and> r = task b i))
           \<and> (\<forall>u. u \<noteq> R
                 \<and> (\<forall>i < length (imageURLs b). \<forall>j < length (imageURLs b).
                       imageURLs b ! i = u \<and> imageURLs b ! j = u \<longrightarrow> task b i = task b j) \<longrightarrow>
                 rs' u = rs u)
           \<and> (\<forall>r. rs' R = Some r \<longrightarrow>
                 ImageURL r = R
                 \<and> (\<exists>i < length (imageURLs b). imageURLs b ! i = R \<and> r = task ?b i))
           \<and> ((\<forall>i < length (imageURLs b). imageURLs b ! i = R \<longrightarrow>
                   Error (task ?b i) \<noteq> '''') \<longrightarrow>
                (\<forall>r. rs' R = Some r \<longrightarrow> Error r \<noteq> '''' \<and> Report r = None))"
      using c by (intro allI impI)
  qed
qed

lemma outage_tasks:
  "task (calm_batch\<lparr>remote := outage\<rparr>) (Suc 0) = flannel_refused"
  "task calm_batch 0 = scanned etcd"
  by (simp_all add: task_def calm_batch_def outage_def flannel_down etcd_up)

text \<open>
  Witness for C9: two references, the registry down for the second only. The first
  keeps its entry, the second's entry holds the error.
\<close>

theorem failure_isolation_witness:
  "0 < numWorkers calm_batch
   \<and> runWorkerPool calm_batch calm_schedule
        = Some [etcd \<mapsto> scanned etcd, flannel \<mapsto> scanned flannel]
   \<and> runWorkerPool (calm_batch\<lparr>remote := outage\<rparr>) calm_schedule
        = Some [etcd \<mapsto> scanned etcd, flannel \<mapsto> flannel_refused]
   \<and> dom [etcd \<mapsto> scanned etcd, flannel \<mapsto> flannel_refused]
        = dom [etcd \<mapsto> scanned etcd, flannel \<mapsto> scanned flannel]
   \<and> [etcd \<mapsto> scanned etcd, flannel \<mapsto> flannel_refused] etcd
        = [etcd \<mapsto> scanned etcd, flannel \<mapsto> scanned flannel] etcd
   \<and> ImageURL flannel_refused = flannel
   \<and> Error flannel_refused \<noteq> ''''
   \<and> Report flannel_refused = None"
proof -
  let ?rs = "[etcd \<mapsto> scanned etcd, flannel \<mapsto> scanned flannel]"
  let ?rs' = "[etcd \<mapsto> scanned etcd, flannel \<mapsto> flannel_refused]"
  have p: "0 < numWorkers calm_batch" by (simp add: calm_batch_def)
  have u: "imageURLs calm_batch = [etcd, flannel]" by (simp add: calm_batch_def)
  have h: "\<forall>i < length (imageURLs calm_batch).
             imageURLs calm_batch ! i \<noteq> flannel \<longrightarrow> outage i = remote calm_batch i"
    by (simp add: calm_batch_def outage_def less_Suc_eq)
  note t = failure_isolation [OF p h]
  from t calm_run outage_run have d: "dom ?rs' = dom ?rs" by blast
  have one: "\<forall>i < length (imageURLs calm_batch). \<forall>j < length (imageURLs calm_batch).
               imageURLs calm_batch ! i = etcd \<and> imageURLs calm_batch ! j = etcd \<longrightarrow>
               task calm_batch i = task calm_batch j"
    using etcd_not_flannel by (auto simp: u less_Suc_eq)
  from t calm_run outage_run etcd_not_flannel one have e: "?rs' etcd = ?rs etcd" by blast
  have f: "?rs' flannel = Some flannel_refused" by simp
  from t calm_run outage_run f have i: "ImageURL flannel_refused = flannel" by blast
  have fails: "\<forall>i < length (imageURLs calm_batch). imageURLs calm_batch ! i = flannel \<longrightarrow>
                 Error (task (calm_batch\<lparr>remote := outage\<rparr>) i) \<noteq> ''''"
    using etcd_not_flannel
    by (auto simp: u less_Suc_eq outage_tasks flannel_refused_def)
  from t calm_run outage_run f fails
  have g: "Error flannel_refused \<noteq> '''' \<and> Report flannel_refused = None" by blast
  from p calm_run outage_run d e i g show ?thesis by blast
qed

section \<open>Properties of the later copy\<close>

lemma Contains_append: "Contains (xs @ sub @ ys) sub"
proof (induction xs)
  case Nil
  have "HasPrefix (sub @ ys) sub" by (simp add: HasPrefix_def)
  then show ?case by (cases "sub @ ys") auto
next
  case (Cons x xs)
  then show ?case by simp
qed

lemma status_404_text:
  assumes "HasPrefix (resp_Status resp) ''404''"
  shows "Contains (ErrorText (statusError fullURL resp)) ''status 404''"
proof -
  from assms have "resp_Status resp = ''404'' @ drop 3 (resp_Status resp)"
    unfolding HasPrefix_def by (metis append_take_drop_id length_Cons list.size(3) numeral_3_eq_3)
  then obtain rest where r: "resp_Status resp = ''404'' @ rest" ..
  have "ErrorText (statusError fullURL resp) =
          (''API request to '' @ fullURL @ '' failed with '') @ ''status 404''
            @ (rest @ ''. Body snippet: '' @ take (min 512 (resp_Chunk resp)) (resp_Body resp))"
    by (simp add: statusError_def r)
  then show ?thesis by (simp only: Contains_append)
qed

lemma request_sent_doRequest':
  assumes "url_Parse w path = Inr rel"
    and "NewRequest_err w m (ResolveReference w (BaseURL c) rel) = None"
    and "Do w (request_sent' c m (ResolveReference w (BaseURL c) rel)) = Inr resp"
    and "resp_StatusCode resp \<noteq> 200"
  shows "doRequest' w c m path decode target =
           (target, Some (statusError (ResolveReference w (BaseURL c) rel) resp),
            [HTTP (request_sent' c m (ResolveReference w (BaseURL c) rel))])"
  using assms
  by (simp add: doRequest'_def NewRequest_def request_sent'_def Let_def)

text \<open>
  Claim C4, on the later copy of the client. A response with status code 404, whose
  status line starts with the code as net/http delivers it, makes \<^verbatim>\<open>GetImageID\<close>
  fail with the tag-not-found error and \<^verbatim>\<open>GetVulnerabilities\<close> fail with the
  report-not-found error and no report. A response with another status code than 200,
  whose error text does not hold \<^verbatim>\<open>status 404\<close>, makes \<^verbatim>\<open>GetImageID\<close> fail with
  the request-failure error: the status line and at most 512 bytes of the body,
  wrapped as a tag-detail failure. The two not-found errors are no wrapped errors, so
  they differ from every such failure.
\<close>

theorem not_found_is_dedicated:
  "(url_Parse w (''repository/'' @ repo @ ''/tag/'' @ PathEscape w tag) = Inr rel
      \<and> NewRequest_err w ''GET'' (ResolveReference w (BaseURL c) rel) = None
      \<and> Do w (request_sent' c ''GET'' (ResolveReference w (BaseURL c) rel)) = Inr resp
      \<and> resp_StatusCode resp = 404 \<and> HasPrefix (resp_Status resp) ''404''
    \<longrightarrow> GetImageID' w c repo tag =
          ('''', Some (tagNotFound repo tag),
           [HTTP (request_sent' c ''GET'' (ResolveReference w (BaseURL c) rel))]))
   \<and> (url_Parse w (''repository/'' @ repo @ ''/image/'' @ imageDigest
                      @ ''/security?vulnerabilities=true'') = Inr rel'
      \<and> NewRequest_err w ''GET'' (ResolveReference w (BaseURL c) rel') = None
      \<and> Do w (request_sent' c ''GET'' (ResolveReference w (BaseURL c) rel')) = Inr resp'
      \<and> resp_StatusCode resp' = 404 \<and> HasPrefix (resp_Status resp') ''404''
    \<longrightarrow> GetVulnerabilities' w c repo imageDigest =
          (None, Some (reportNotFound repo imageDigest),
           [HTTP (request_sent' c ''GET'' (ResolveReference w (BaseURL c) rel'))]))
   \<and> (url_Parse w (''repository/'' @ repo @ ''/tag/'' @ PathEscape w tag) = Inr rel
      \<and> NewRequest_err w ''GET'' (ResolveReference w (BaseURL c) rel) = None
      \<and> Do w (request_sent' c ''GET'' (ResolveReference w (BaseURL c) rel)) = Inr resp
      \<and> resp_StatusCode resp \<noteq> 200
      \<and> \<not> Contains (ErrorText (statusError (ResolveReference w (BaseURL c) rel) resp))
             ''status 404''
    \<longrightarrow> GetImageID' w c repo tag =
          ('''',
           Some (wrapError
             (''failed to get tag details for '' @ repo @ '':'' @ tag @ '': API request to ''
                @ ResolveReference w (BaseURL c) rel @ '' failed with status ''
                @ resp_Status resp @ ''. Body snippet: ''
                @ take (min 512 (resp_Chunk resp)) (resp_Body resp))
             (errorString
               (''API request to '' @ ResolveReference w (BaseURL c) rel
                  @ '' failed with status '' @ resp_Status resp @ ''. Body snippet: ''
                  @ take (min 512 (resp_Chunk resp)) (resp_Body resp)))),
           [HTTP (request_sent' c ''GET'' (ResolveReference w (BaseURL c) rel))]))
   \<and> tagNotFound repo tag \<noteq> Errorf_w prefix err
   \<and> reportNotFound repo imageDigest \<noteq> Errorf_w prefix err"
proof (intro conjI impI)
  assume a: "url_Parse w (''repository/'' @ repo @ ''/tag/'' @ PathEscape w tag) = Inr rel
      \<and> NewRequest_err w ''GET'' (ResolveReference w (BaseURL c) rel) = None
      \<and> Do w (request_sent' c ''GET'' (ResolveReference w (BaseURL c) rel)) = Inr resp
      \<and> resp_StatusCode resp = 404 \<and> HasPrefix (resp_Status resp) ''404''"
  then have a1: "url_Parse w (''repository/'' @ repo @ ''/tag/'' @ PathEscape w tag) = Inr rel"
    and a2: "NewRequest_err w ''GET'' (ResolveReference w (BaseURL c) rel) = None"
    and a3: "Do w (request_sent' c ''GET'' (ResolveReference w (BaseURL c) rel)) = Inr resp"
    and a4: "resp_StatusCode resp \<noteq> 200" and a5: "HasPrefix (resp_Status resp) ''404''"
    by simp_all
  have "doRequest' w c ''GET'' (''repository/'' @ repo @ ''/tag/'' @ PathEscape w tag)
          (Decode_TagDetail w) (Some TagDetail_zero) =
        (Some TagDetail_zero, Some (statusError (ResolveReference w (BaseURL c) rel) resp),
         [HTTP (request_sent' c ''GET'' (ResolveReference w (BaseURL c) rel))])"
    by (rule request_sent_doRequest' [OF a1 a2 a3 a4])
  then show "GetImageID' w c repo tag =
          ('''', Some (tagNotFound repo tag),
           [HTTP (request_sent' c ''GET'' (ResolveReference w (BaseURL c) rel))])"
    using status_404_text [OF a5] by (simp add: GetImageID'_def Let_def)
next
  assume a: "url_Parse w (''repository/'' @ repo @ ''/image/'' @ imageDigest
                      @ ''/security?vulnerabilities=true'') = Inr rel'
      \<and> NewRequest_err w ''GET'' (ResolveReference w (BaseURL c) rel') = None
      \<and> Do w (request_sent' c ''GET'' (ResolveReference w (BaseURL c) rel')) = Inr resp'
      \<and> resp_StatusCode resp' = 404 \<and> HasPrefix (resp_Status resp') ''404''"
  then have a1: "url_Parse w (''repository/'' @ repo @ ''/image/'' @ imageDigest
                      @ ''/security?vulnerabilities=true'') = Inr rel'"
    and a2: "NewRequest_err w ''GET'' (ResolveReference w (BaseURL c) rel') = None"
    and a3: "Do w (request_sent' c ''GET'' (ResolveReference w (BaseURL c) rel')) = Inr resp'"
    and a4: "resp_StatusCode resp' \<noteq> 200" and a5: "HasPrefix (resp_Status resp') ''404''"
    by simp_all
  have "doRequest' w c ''GET'' (''repository/'' @ repo @ ''/image/'' @ imageDigest
                      @ ''/security?vulnerabilities=true'')
          (Decode_SecurityReport w) (Some SecurityReport_zero) =
        (Some SecurityReport_zero,
         Some (statusError (ResolveReference w (BaseURL c) rel') resp'),
         [HTTP (request_sent' c ''GET'' (ResolveReference w (BaseURL c) rel'))])"
    by (rule request_sent_doRequest' [OF a1 a2 a3 a4])
  then show "GetVulnerabilities' w c repo imageDigest =
          (None, Some (reportNotFound repo imageDigest),
           [HTTP (request_sent' c ''GET'' (ResolveReference w (BaseURL c) rel'))])"
    using status_404_text [OF a5] by (simp add: GetVulnerabilities'_def Let_def)
next
  assume a: "url_Parse w (''repository/'' @ repo @ ''/tag/'' @ PathEscape w tag) = Inr rel
      \<and> NewRequest_err w ''GET'' (ResolveReference w (BaseURL c) rel) = None
      \<and> Do w (request_sent' c ''GET'' (ResolveReference w (BaseURL c) rel)) = Inr resp
      \<and> resp_StatusCode resp \<noteq> 200
      \<and> \<not> Contains (ErrorText (statusError (ResolveReference w (BaseURL c) rel) resp))
             ''status 404''"
  then have a1: "url_Parse w (''repository/'' @ repo @ ''/tag/'' @ PathEscape w tag) = Inr rel"
    and a2: "NewRequest_err w ''GET'' (ResolveReference w (BaseURL c) rel) = None"
    and a3: "Do w (request_sent' c ''GET'' (ResolveReference w (BaseURL c) rel)) = Inr resp"
    and a4: "resp_StatusCode resp \<noteq> 200"
    and a5: "\<not> Contains (ErrorText (statusError (ResolveReference w (BaseURL c) rel) resp))
             ''status 404''"
    by blast+
  have "doRequest' w c ''GET'' (''repository/'' @ repo @ ''/tag/'' @ PathEscape w tag)
          (Decode_TagDetail w) (Some TagDetail_zero) =
        (Some TagDetail_zero, Some (statusError (ResolveReference w (BaseURL c) rel) resp),
         [HTTP (request_sent' c ''GET'' (ResolveReference w (BaseURL c) rel))])"
    by (rule request_sent_doRequest' [OF a1 a2 a3 a4])
  then have "GetImageID' w c repo tag =
          ('''',
           Some (Errorf_w (''failed to get tag details for '' @ repo @ '':'' @ tag @ '': '')
                   (statusError (ResolveReference w (BaseURL c) rel) resp)),
           [HTTP (request_sent' c ''GET'' (ResolveReference w (BaseURL c) rel))])"
    using a5 by (simp add: GetImageID'_def Let_def)
  then show "GetImageID' w c repo tag =
          ('''',
           Some (wrapError
             (''failed to get tag details for '' @ repo @ '':'' @ tag @ '': API request to ''
                @ ResolveReference w (BaseURL c) rel @ '' failed with status ''
                @ resp_Status resp @ ''. Body snippet: ''
                @ take (min 512 (resp_Chunk resp)) (resp_Body resp))
             (errorString
               (''API request to '' @ ResolveReference w (BaseURL c) rel
                  @ '' failed with status '' @ resp_Status resp @ ''. Body snippet: ''
                  @ take (min 512 (resp_Chunk resp)) (resp_Body resp)))),
           [HTTP (request_sent' c ''GET'' (ResolveReference w (BaseURL c) rel))])"
    by (simp add: Errorf_w_def statusError_def)
next
  show "tagNotFound repo tag \<noteq> Errorf_w prefix err"
    by (simp add: tagNotFound_def Errorf_w_def)
  show "reportNotFound repo imageDigest \<noteq> Errorf_w prefix err"
    by (simp add: reportNotFound_def Errorf_w_def)
qed

lemma sample_requests':
  "request_sent' sample_client' ''GET'' tag_url = tag_request"
  "request_sent' sample_client' ''GET'' sec_url = sec_request"
  by (simp_all add: request_sent'_def sample_client'_def Header_Set_def tag_request_def
      sec_request_def)

text \<open>
  Witness for C4: the status 404 on either request, and the status 500 on the
  tag-detail request.
\<close>

theorem not_found_is_dedicated_witness:
  "GetImageID' (sample_world [(tag_url, Inr not_found)]) sample_client'
     ''coreos/etcd'' ''v3.5.0'' =
     ('''', Some (tagNotFound ''coreos/etcd'' ''v3.5.0''), [HTTP tag_request])
   \<and> GetVulnerabilities' (sample_world [(sec_url, Inr not_found)]) sample_client'
        ''coreos/etcd'' ''abc123'' =
     (None, Some (reportNotFound ''coreos/etcd'' ''abc123''), [HTTP sec_request])
   \<and> GetImageID' (sample_world [(tag_url, Inr server_error)]) sample_client'
        ''coreos/etcd'' ''v3.5.0'' =
     ('''',
      Some (wrapError
        (''failed to get tag details for coreos/etcd:v3.5.0: API request to '' @ tag_url
           @ '' failed with status 500 Internal Server Error. Body snippet: '')
        (errorString
          (''API request to '' @ tag_url
             @ '' failed with status 500 Internal Server Error. Body snippet: ''))),
      [HTTP tag_request])"
proof -
  have u: "BaseURL sample_client' @ ''repository/coreos/etcd/tag/v3.5.0'' = tag_url"
    by (simp add: sample_client'_def tag_url_def)
  have v: "BaseURL sample_client'
             @ ''repository/coreos/etcd/image/abc123/security?vulnerabilities=true'' = sec_url"
    by (simp add: sample_client'_def sec_url_def)
  have n: "resp_StatusCode not_found = 404" "HasPrefix (resp_Status not_found) ''404''"
    by (simp_all add: not_found_def HasPrefix_def)
  have a: "GetImageID' (sample_world [(tag_url, Inr not_found)]) sample_client'
     ''coreos/etcd'' ''v3.5.0'' =
     ('''', Some (tagNotFound ''coreos/etcd'' ''v3.5.0''), [HTTP tag_request])"
    using not_found_is_dedicated
      [where w = "sample_world [(tag_url, Inr not_found)]" and repo = "''coreos/etcd''"
         and tag = "''v3.5.0''" and rel = "''repository/coreos/etcd/tag/v3.5.0''"
         and c = sample_client' and resp = not_found]
    by (simp add: sample_world_simps u sample_requests' n tag_request_def)
  have b: "GetVulnerabilities' (sample_world [(sec_url, Inr not_found)]) sample_client'
        ''coreos/etcd'' ''abc123'' =
     (None, Some (reportNotFound ''coreos/etcd'' ''abc123''), [HTTP sec_request])"
    using not_found_is_dedicated
      [where w = "sample_world [(sec_url, Inr not_found)]" and repo = "''coreos/etcd''"
         and imageDigest = "''abc123''"
         and rel' = "''repository/coreos/etcd/image/abc123/security?vulnerabilities=true''"
         and c = sample_client' and resp' = not_found]
    by (simp add: sample_world_simps v sample_requests' n sec_request_def)
  have s: "resp_StatusCode server_error \<noteq> 200"
    "\<not> Contains (ErrorText (statusError tag_url server_error)) ''status 404''"
    by (simp_all add: server_error_def statusError_def tag_url_def HasPrefix_def)
  have c: "GetImageID' (sample_world [(tag_url, Inr server_error)]) sample_client'
        ''coreos/etcd'' ''v3.5.0'' =
     ('''',
      Some (wrapError
        (''failed to get tag details for coreos/etcd:v3.5.0: API request to '' @ tag_url
           @ '' failed with status 500 Internal Server Error. Body snippet: '')
        (errorString
          (''API request to '' @ tag_url
             @ '' failed with status 500 Internal Server Error. Body snippet: ''))),
      [HTTP tag_request])"
    using not_found_is_dedicated
      [where w = "sample_world [(tag_url, Inr server_error)]" and repo = "''coreos/etcd''"
         and tag = "''v3.5.0''" and rel = "''repository/coreos/etcd/tag/v3.5.0''"
         and c = sample_client' and resp = server_error]
      s
    by (simp add: sample_world_simps u sample_requests' tag_request_def)
       (simp add: server_error_def)
  from a b c show ?thesis by blast
qed

text \<open>
  Claim C3 fails on the code. The registry answers the tag-detail request with the
  manifest digest \<^verbatim>\<open>sha256:\<close>: the field is not empty, so \<^verbatim>\<open>GetImageID\<close> cuts the
  prefix off and returns the empty digest with no error, in the first copy of the
  client and in the later one alike. The later \<^verbatim>\<open>processImage\<close> still catches the
  empty digest, under a comment that says \<^verbatim>\<open>GetImageID\<close> should return an error
  here.
\<close>

theorem GetImageID_empty_digest:
  "GetImageID (sample_world [(tag_url, response 200 ''200 OK'' ''manifest_digest=sha256:'')])
     sample_client ''coreos/etcd'' ''v3.5.0''
   = ('''', None, [HTTP tag_request])
   \<and> GetImageID' (sample_world [(tag_url, response 200 ''200 OK'' ''manifest_digest=sha256:'')])
     sample_client' ''coreos/etcd'' ''v3.5.0''
   = ('''', None, [HTTP tag_request])
   \<and> fst (processImage'
            (sample_world [(tag_url, response 200 ''200 OK'' ''manifest_digest=sha256:'')])
            sample_client' etcd)
   = \<lparr>ImageURL = etcd, Report = None,
      Error = ''Could not find image ID for tag '' @ apos @ ''v3.5.0'' @ apos
                @ '' (tag might not exist or image details missing)''\<rparr>"
  by (simp add: processImage'_def parse_etcd GetImageID_def GetImageID'_def doRequest_def
      doRequest'_def NewRequest_def Header_Set_def Let_def sample_defs sample_client'_def)

end
